theory Spec2Isabelle
  imports Complex_Main "HOL-Library.Sublist"
begin

section \<open>Python strings\<close>

text \<open>
  A Python \<open>str\<close> is modelled as a \<open>string\<close>: a list of characters whose code points
  lie in the range \<open>0..255\<close>. The classifications below are the ones the Python
  methods \<open>str.strip\<close>, \<open>str.lower\<close> and the pattern class \<open>\d\<close> use on that range.
\<close>

definition NL :: char where
  "NL = CHR 0x0A"

definition QUOTE :: char where
  "QUOTE = CHR 0x27"

definition py_isspace :: "char \<Rightarrow> bool" where
  "py_isspace c \<longleftrightarrow>
     of_char c \<in> {9::nat, 10, 11, 12, 13, 28, 29, 30, 31, 32, 133, 160}"

definition py_isdigit :: "char \<Rightarrow> bool" where
  "py_isdigit c \<longleftrightarrow> (48::nat) \<le> of_char c \<and> of_char c \<le> (57::nat)"

definition py_lower_char :: "char \<Rightarrow> char" where
  "py_lower_char c =
     (let n = (of_char c :: nat)
      in if (65 \<le> n \<and> n \<le> 90) \<or> (192 \<le> n \<and> n \<le> 214) \<or> (216 \<le> n \<and> n \<le> 222)
         then char_of (n + 32) else c)"

definition py_lower :: "string \<Rightarrow> string" where
  "py_lower s = map py_lower_char s"

definition lstrip :: "string \<Rightarrow> string" where
  "lstrip s = dropWhile py_isspace s"

definition rstrip :: "string \<Rightarrow> string" where
  "rstrip s = rev (dropWhile py_isspace (rev s))"

definition strip :: "string \<Rightarrow> string" where
  "strip s = rstrip (lstrip s)"

definition startswith :: "string \<Rightarrow> string \<Rightarrow> bool" where
  "startswith s p \<longleftrightarrow> take (length p) s = p"

text \<open>\<open>sub in s\<close> for two strings.\<close>

fun py_contains :: "string \<Rightarrow> string \<Rightarrow> bool" where
  "py_contains sub [] = (sub = [])"
| "py_contains sub (x # xs) = (startswith (x # xs) sub \<or> py_contains sub xs)"

text \<open>\<open>sep.join(parts)\<close>.\<close>

fun py_join :: "string \<Rightarrow> string list \<Rightarrow> string" where
  "py_join sep [] = []"
| "py_join sep [p] = p"
| "py_join sep (p # q # ps) = p @ sep @ py_join sep (q # ps)"

datatype py_error = IndexError | ValueError | OtherError

text \<open>
  \<open>s.split(sep)\<close> with a separator argument: every occurrence of \<open>sep\<close>, scanning from the
  left, ends a fragment; an empty separator raises \<open>ValueError\<close>.
\<close>

function split_go :: "string \<Rightarrow> string \<Rightarrow> string \<Rightarrow> string list" where
  "split_go sep cur [] = [rev cur]"
| "split_go sep cur (x # xs) =
     (if sep \<noteq> [] \<and> startswith (x # xs) sep
      then rev cur # split_go sep [] (drop (length sep - 1) xs)
      else split_go sep (x # cur) xs)"
  by pat_completeness auto
termination
  by (relation "measure (\<lambda>(sep, cur, s). length s)") auto

definition py_split :: "string \<Rightarrow> string \<Rightarrow> py_error + string list" where
  "py_split s sep = (if sep = [] then Inl ValueError else Inr (split_go sep [] s))"

text \<open>\<open>s.split('\n')\<close>: the separator is not empty, so the call cannot raise.\<close>

definition split_lines :: "string \<Rightarrow> string list" where
  "split_lines s = split_go [NL] [] s"

text \<open>
  \<open>line.split(':', 1)\<close>: at most one split, at the first colon. Element \<open>[0]\<close> always
  exists; element \<open>[1]\<close> exists only when the line has a colon, and indexing it raises
  \<open>IndexError\<close> otherwise.
\<close>

definition split_colon_0 :: "string \<Rightarrow> string" where
  "split_colon_0 line = takeWhile (\<lambda>c. c \<noteq> CHR '':'') line"

definition split_colon_1 :: "string \<Rightarrow> py_error + string" where
  "split_colon_1 line =
     (case dropWhile (\<lambda>c. c \<noteq> CHR '':'') line of
        [] \<Rightarrow> Inl IndexError
      | _ # rest \<Rightarrow> Inr rest)"

section \<open>NYT-style parsing\<close>

text \<open>
  \<open>is_valid_uuid\<close>. The constructor \<open>uuid.UUID\<close> belongs to the Python standard library;
  \<open>uuid_parses s\<close> stands for "\<open>uuid.UUID(s)\<close> returns without \<open>ValueError\<close> or
  \<open>TypeError\<close>" and is a parameter of everything below.
\<close>

definition is_valid_uuid :: "(string \<Rightarrow> bool) \<Rightarrow> string \<Rightarrow> bool" where
  "is_valid_uuid uuid_parses key_str = (if key_str = [] then False else uuid_parses key_str)"

text \<open>
  The keys of the dictionary \<open>data\<close> of \<open>parse_nyt_article\<close>. Every key is present from
  the start; \<open>None\<close> is Python's \<open>None\<close>. The thirteen placeholder keys
  (\<open>format_note\<close>, \<open>nyt_source_info\<close>, \<open>nyt_svm_score\<close> and the \<open>factiva_*\<close> keys) are
  initialised to \<open>None\<close> and never assigned; they are kept together in \<open>placeholders\<close>.
\<close>

record nyt_data =
  source_filepath :: string
  format_type :: string
  headline :: "string option"
  body :: "string option"
  publication_date :: "string option"
  nyt_internal_id :: "string option"
  nyt_country_codes :: "string option"
  placeholders :: "(string \<times> string option) list"

type_synonym bad_key = "string \<times> string \<times> string"

record nyt_config =
  article_separator :: string
  text_start_marker :: string
  text_end_marker :: string

record nyt_state =
  data :: nyt_data
  bad_key_info :: "bad_key option"
  warnings :: "string list"
  text_lines :: "string list"
  in_text_block :: bool
  found_start_marker :: bool
  found_end_marker :: bool

definition placeholder_keys :: "string list" where
  "placeholder_keys =
     [''format_note'', ''nyt_source_info'', ''nyt_svm_score'', ''factiva_key'',
      ''factiva_word_count'', ''factiva_source_name'', ''factiva_language'',
      ''factiva_document_type'', ''factiva_region'', ''factiva_industry'',
      ''factiva_subject'', ''factiva_company_codes'', ''factiva_other_metadata'']"

definition nyt_init :: "string \<Rightarrow> nyt_state" where
  "nyt_init filepath =
     \<lparr> data = \<lparr> source_filepath = filepath, format_type = ''NYT_2011_2014'',
                 headline = None, body = None, publication_date = None,
                 nyt_internal_id = None, nyt_country_codes = None,
                 placeholders = map (\<lambda>k. (k, None)) placeholder_keys \<rparr>,
       bad_key_info = None, warnings = [], text_lines = [],
       in_text_block = False, found_start_marker = False, found_end_marker = False \<rparr>"

text \<open>The f-string \<open>'{x}'\<close>: the value between two apostrophes.\<close>

definition quoted :: "string \<Rightarrow> string" where
  "quoted x = QUOTE # x @ [QUOTE]"

text \<open>\<open>re.match(r'^\d{8}$', date_str)\<close> on a stripped value.\<close>

definition is_eight_digits :: "string \<Rightarrow> bool" where
  "is_eight_digits date_str \<longleftrightarrow> length date_str = 8 \<and> list_all py_isdigit date_str"

definition reformat_date :: "string \<Rightarrow> string" where
  "reformat_date date_str =
     take 4 date_str @ ''-'' @ take 2 (drop 4 date_str) @ ''-'' @ drop 6 date_str"

text \<open>The last statement of the \<open>try\<close> block: \<open>if in_text_block: text_lines.append(line)\<close>.\<close>

definition append_if_in_text :: "string \<Rightarrow> nyt_state \<Rightarrow> nyt_state" where
  "append_if_in_text line st =
     (if in_text_block st then st\<lparr>text_lines := text_lines st @ [line]\<rparr> else st)"

text \<open>The \<open>except IndexError\<close> handler of the loop body.\<close>

definition on_index_error :: "string \<Rightarrow> string \<Rightarrow> nyt_state \<Rightarrow> nyt_state" where
  "on_index_error filepath line st =
     (let field_name = split_colon_0 (strip line);
          st1 = st\<lparr>warnings := warnings st @
                  [''Could not parse value for field '' @ quoted field_name @
                   ''. Line: '' @ quoted line]\<rparr>
      in if field_name = ''Key''
         then st1\<lparr>data := (data st1)\<lparr>nyt_internal_id := Some []\<rparr>,
                  bad_key_info := Some ([], filepath, ''Malformed Key Line'')\<rparr>
         else st1)"

text \<open>The \<open>Key:\<close> branch, given the value found after the colon.\<close>

definition on_key :: "(string \<Rightarrow> bool) \<Rightarrow> string \<Rightarrow> string \<Rightarrow> string \<Rightarrow> nyt_state \<Rightarrow> nyt_state" where
  "on_key uuid_parses filepath line key_value_found st =
     (let st1 = st\<lparr>data := (data st)\<lparr>nyt_internal_id := Some key_value_found\<rparr>\<rparr>
      in if key_value_found = []
         then st1\<lparr>warnings := warnings st1 @ [''Empty Key value found: '' @ quoted line],
                  bad_key_info := Some (key_value_found, filepath, ''Empty Key'')\<rparr>
         else if \<not> is_valid_uuid uuid_parses key_value_found
         then st1\<lparr>warnings := warnings st1 @
                    [''Malformed Key (UUID validation failed): '' @ quoted key_value_found],
                  bad_key_info := Some (key_value_found, filepath, ''Invalid UUID'')\<rparr>
         else st1)"

text \<open>The \<open>Date:\<close> branch, given the value found after the colon.\<close>

definition on_date :: "string \<Rightarrow> nyt_state \<Rightarrow> nyt_state" where
  "on_date date_str st =
     (if is_eight_digits date_str
      then st\<lparr>data := (data st)\<lparr>publication_date := Some (reformat_date date_str)\<rparr>\<rparr>
      else if date_str = []
      then st\<lparr>warnings := warnings st @ [''Empty Date field found. Storing as NULL.''],
              data := (data st)\<lparr>publication_date := None\<rparr>\<rparr>
      else st\<lparr>warnings := warnings st @
                [''Non-standard date format: '' @ quoted date_str @ ''. Storing as NULL.''],
              data := (data st)\<lparr>publication_date := None\<rparr>\<rparr>)"

text \<open>
  One iteration of \<open>for i, line in enumerate(lines)\<close>. A blank line is skipped; the
  branches of the \<open>if/elif\<close> chain are tried in the order of the source; the start marker
  ends the iteration with \<open>continue\<close>; every other branch falls through to the append.
\<close>

definition nyt_step :: "(string \<Rightarrow> bool) \<Rightarrow> nyt_config \<Rightarrow> string \<Rightarrow> string \<Rightarrow> nyt_state \<Rightarrow> nyt_state" where
  "nyt_step uuid_parses cfg filepath line st =
     (let stripped_line = strip line
      in if stripped_line = [] then st
         else if startswith stripped_line ''Key:'' then
           (case split_colon_1 line of
              Inl _ \<Rightarrow> on_index_error filepath line st
            | Inr v \<Rightarrow> append_if_in_text line (on_key uuid_parses filepath line (strip v) st))
         else if startswith stripped_line ''Headline:'' then
           (case split_colon_1 line of
              Inl _ \<Rightarrow> on_index_error filepath line st
            | Inr v \<Rightarrow> append_if_in_text line (st\<lparr>data := (data st)\<lparr>headline := Some (strip v)\<rparr>\<rparr>))
         else if startswith stripped_line ''Date:'' then
           (case split_colon_1 line of
              Inl _ \<Rightarrow> on_index_error filepath line st
            | Inr v \<Rightarrow> append_if_in_text line (on_date (strip v) st))
         else if startswith stripped_line ''Countries:'' then
           (case split_colon_1 line of
              Inl _ \<Rightarrow> on_index_error filepath line st
            | Inr v \<Rightarrow> append_if_in_text line
                         (st\<lparr>data := (data st)\<lparr>nyt_country_codes := Some (strip v)\<rparr>\<rparr>))
         else if startswith stripped_line (text_start_marker cfg) then
           st\<lparr>in_text_block := True, found_start_marker := True\<rparr>
         else if startswith stripped_line (text_end_marker cfg) then
           append_if_in_text line (st\<lparr>in_text_block := False, found_end_marker := True\<rparr>)
         else append_if_in_text line st)"

definition nyt_loop :: "(string \<Rightarrow> bool) \<Rightarrow> nyt_config \<Rightarrow> string \<Rightarrow> string list \<Rightarrow> nyt_state \<Rightarrow> nyt_state" where
  "nyt_loop uuid_parses cfg filepath lines st = fold (nyt_step uuid_parses cfg filepath) lines st"

text \<open>\<open>data.get('nyt_internal_id', 'N/A')\<close> inside an f-string: the key is always present.\<close>

definition key_for_warn :: "nyt_state \<Rightarrow> string" where
  "key_for_warn st = (case nyt_internal_id (data st) of None \<Rightarrow> ''None'' | Some k \<Rightarrow> k)"

text \<open>Post-processing of the captured text.\<close>

definition nyt_post_text :: "nyt_state \<Rightarrow> nyt_state" where
  "nyt_post_text st =
     (if text_lines st \<noteq> []
      then st\<lparr>data := (data st)\<lparr>body := Some (strip (py_join [NL] (text_lines st)))\<rparr>\<rparr>
      else if found_start_marker st \<and> found_end_marker st
      then st\<lparr>data := (data st)\<lparr>body := Some []\<rparr>,
              warnings := warnings st @
                [''Text block markers found but no text content between them for key '' @
                 quoted (key_for_warn st)]\<rparr>
      else if found_start_marker st \<and> \<not> found_end_marker st
      then st\<lparr>warnings := warnings st @
                [''Text block START marker found but NO END marker for key '' @
                 quoted (key_for_warn st)],
              data := (data st)\<lparr>body := Some (strip (py_join [NL] (text_lines st)))\<rparr>\<rparr>
      else if \<not> found_start_marker st \<and> found_end_marker st
      then st\<lparr>warnings := warnings st @
                [''Text block END marker found but NO START marker for key '' @
                 quoted (key_for_warn st)]\<rparr>
      else st)"

text \<open>The final checks and the returned triple \<open>(data, bad_key_info, warnings)\<close>.\<close>

definition nyt_final :: "nyt_state \<Rightarrow> nyt_data option \<times> bad_key option \<times> string list" where
  "nyt_final st =
     (if nyt_internal_id (data st) = None
      then (None, None,
            if \<not> list_ex (py_contains (''Could not parse value for field '' @ quoted ''Key''))
                   (warnings st)
            then warnings st @ [''No '' @ quoted ''Key:'' @ '' line found in this article block.'']
            else warnings st)
      else (Some (data st), bad_key_info st, warnings st))"

definition parse_nyt_article ::
  "(string \<Rightarrow> bool) \<Rightarrow> nyt_config \<Rightarrow> string \<Rightarrow> string \<Rightarrow>
   nyt_data option \<times> bad_key option \<times> string list" where
  "parse_nyt_article uuid_parses cfg article_block filepath =
     nyt_final (nyt_post_text
       (nyt_loop uuid_parses cfg filepath (split_lines (strip article_block)) (nyt_init filepath)))"


subsection \<open>Lines of a block by the field they carry\<close>

text \<open>
  The test the loop makes on each line, and the value it reads:
  \<open>stripped_line.startswith('Key:')\<close>, and \<open>line.split(':', 1)[1].strip()\<close> for a line
  that has a colon.
\<close>

definition is_key_line :: "string \<Rightarrow> bool" where
  "is_key_line line \<longleftrightarrow> startswith (strip line) ''Key:''"

definition is_date_line :: "string \<Rightarrow> bool" where
  "is_date_line line \<longleftrightarrow> startswith (strip line) ''Date:''"

definition field_value :: "string \<Rightarrow> string" where
  "field_value line = strip (drop 1 (dropWhile (\<lambda>c. c \<noteq> CHR '':'') line))"

definition bad_key_line :: "(string \<Rightarrow> bool) \<Rightarrow> string \<Rightarrow> bool" where
  "bad_key_line uuid_parses line \<longleftrightarrow>
     is_key_line line \<and> \<not> is_valid_uuid uuid_parses (field_value line)"

text \<open>The two warnings of the \<open>Date:\<close> branch.\<close>

definition date_warning :: "string \<Rightarrow> string" where
  "date_warning v =
     (if v = [] then ''Empty Date field found. Storing as NULL.''
      else ''Non-standard date format: '' @ quoted v @ ''. Storing as NULL.'')"

subsection \<open>Concrete parameters for evaluation\<close>

text \<open>
  The canonical textual form of a UUID, 8-4-4-4-12 hexadecimal digits. \<open>uuid.UUID\<close>
  accepts every such string (and some other spellings); a string with fewer than 32
  characters it rejects. The concrete evaluations below use keys on which this test and
  \<open>uuid.UUID\<close> agree.
\<close>

definition is_hex_char :: "char \<Rightarrow> bool" where
  "is_hex_char c \<longleftrightarrow> c \<in> set ''0123456789abcdefABCDEF''"

definition canonical_uuid :: "string \<Rightarrow> bool" where
  "canonical_uuid s \<longleftrightarrow>
     length s = 36 \<and>
     list_all (\<lambda>i. if i \<in> {8, 13, 18, 23} then s ! i = CHR ''-'' else is_hex_char (s ! i))
              [0..<36]"

text \<open>The markers and the separator of the default configuration (\<open>config.py\<close>).\<close>

definition default_nyt_config :: nyt_config where
  "default_nyt_config =
     \<lparr> article_separator = ''---------------------------------------------------------------'',
       text_start_marker = ''>>>>>>>>>>>>>>>>>>>>>>'',
       text_end_marker = ''<<<<<<<<<<<<<<<<<<<<<<'' \<rparr>"

section \<open>The file worker\<close>

subsection \<open>Reading a file of unknown encoding\<close>

text \<open>
  What lies outside the repository is a parameter: the bytes of the file (\<open>None\<close> when
  \<open>open\<close> raises, for a missing or unreadable file), \<open>chardet.detect\<close> on the head of the
  file, the strict decoders by encoding name, and the decoder of UTF-8 with
  \<open>errors='replace'\<close>, which substitutes a character for every undecodable byte and so
  returns a string for every byte sequence.
\<close>

record detection =
  encoding :: "string option"
  confidence :: real

datatype read_outcome = Content string | UnicodeDecodeError | ReadException

record 'b reader_env =
  file_bytes :: "'b option"
  chardet_detect :: "'b \<Rightarrow> py_error + detection"
  decode_strict :: "string \<Rightarrow> 'b \<Rightarrow> read_outcome"
  decode_replace :: "'b \<Rightarrow> string"

definition ENCODING_FALLBACKS :: "string list" where
  "ENCODING_FALLBACKS = [''utf-8'', ''windows-1252'', ''iso-8859-1'']"

text \<open>
  The first \<open>try\<close> block: \<open>detected_encoding\<close> is set only when the detector names an
  encoding with confidence above 0.9; any exception leaves it \<open>None\<close>.
\<close>

definition detect_encoding :: "'b reader_env \<Rightarrow> string option" where
  "detect_encoding env =
     (case file_bytes env of
        None \<Rightarrow> None
      | Some raw \<Rightarrow>
          (case chardet_detect env raw of
             Inl _ \<Rightarrow> None
           | Inr detected \<Rightarrow>
               (case encoding detected of
                  None \<Rightarrow> None
                | Some e \<Rightarrow> if e \<noteq> [] \<and> confidence detected > 9 / 10 then Some e else None)))"

text \<open>One iteration of \<open>for enc in ENCODING_FALLBACKS\<close>.\<close>

definition add_fallback :: "string \<Rightarrow> string list \<Rightarrow> string list" where
  "add_fallback enc encs = (if py_lower enc \<notin> set (map py_lower encs) then encs @ [enc] else encs)"

text \<open>
  \<open>if detected_encoding and detected_encoding.lower() != 'utf-8':
  encodings_to_try.append(detected_encoding)\<close>: what the detection adds to the list.
\<close>

definition detected_part :: "string option \<Rightarrow> string list" where
  "detected_part detected_encoding =
     (case detected_encoding of
        None \<Rightarrow> []
      | Some e \<Rightarrow> if e \<noteq> [] \<and> py_lower e \<noteq> ''utf-8'' then [e] else [])"

definition encodings_to_try :: "string option \<Rightarrow> string list" where
  "encodings_to_try detected_encoding =
     fold add_fallback ENCODING_FALLBACKS ([''utf-8''] @ detected_part detected_encoding)"

definition open_strict :: "'b reader_env \<Rightarrow> string \<Rightarrow> read_outcome" where
  "open_strict env enc =
     (case file_bytes env of None \<Rightarrow> ReadException | Some raw \<Rightarrow> decode_strict env enc raw)"

definition open_replace :: "'b reader_env \<Rightarrow> read_outcome" where
  "open_replace env =
     (case file_bytes env of None \<Rightarrow> ReadException | Some raw \<Rightarrow> Content (decode_replace env raw))"

text \<open>The text a strict read with one encoding yields, if it yields one.\<close>

definition strict_content :: "'b reader_env \<Rightarrow> string \<Rightarrow> string option" where
  "strict_content env enc = (case open_strict env enc of Content c \<Rightarrow> Some c | _ \<Rightarrow> None)"

text \<open>
  \<open>for enc in encodings_to_try\<close>: stop at the first encoding that reads the file; count
  the decoding errors, at most \<open>MAX_ENCODING_ERRORS_TO_LOG\<close> of them.
\<close>

fun try_encodings :: "'b reader_env \<Rightarrow> string list \<Rightarrow> nat \<Rightarrow> string option \<times> nat" where
  "try_encodings env [] encoding_error_count = (None, encoding_error_count)"
| "try_encodings env (enc # encs) encoding_error_count =
     (case open_strict env enc of
        Content c \<Rightarrow> (Some c, encoding_error_count)
      | UnicodeDecodeError \<Rightarrow>
          try_encodings env encs
            (if encoding_error_count < 100 then encoding_error_count + 1
             else encoding_error_count)
      | ReadException \<Rightarrow> try_encodings env encs encoding_error_count)"

definition read_file_content :: "'b reader_env \<Rightarrow> string option" where
  "read_file_content env =
     (case fst (try_encodings env (encodings_to_try (detect_encoding env)) 0) of
        Some c \<Rightarrow> Some c
      | None \<Rightarrow> (case open_replace env of Content c \<Rightarrow> Some c | _ \<Rightarrow> None))"

subsection \<open>Splitting and parsing\<close>

text \<open>
  A parsed article is a Python dictionary: an association list from keys to values, in
  insertion order. \<open>d.get(k)\<close> is \<open>PyNone\<close> for a missing key.
\<close>

datatype py_value = PyNone | PyStr string | PyInt int

type_synonym py_dict = "(string \<times> py_value) list"

definition dict_get :: "py_dict \<Rightarrow> string \<Rightarrow> py_value" where
  "dict_get d k = (case map_of d k of None \<Rightarrow> PyNone | Some v \<Rightarrow> v)"

definition dict_set :: "py_dict \<Rightarrow> string \<Rightarrow> py_value \<Rightarrow> py_dict" where
  "dict_set d k v = (if k \<in> set (map fst d) then map (\<lambda>(k', v'). if k' = k then (k', v) else (k', v')) d
                     else d @ [(k, v)])"

definition py_opt :: "string option \<Rightarrow> py_value" where
  "py_opt x = (case x of None \<Rightarrow> PyNone | Some s \<Rightarrow> PyStr s)"

text \<open>The dictionary \<open>data\<close> of \<open>parse_nyt_article\<close>, with its twenty keys.\<close>

definition placeholder_value :: "nyt_data \<Rightarrow> string \<Rightarrow> py_value" where
  "placeholder_value d k = (case map_of (placeholders d) k of Some (Some s) \<Rightarrow> PyStr s | _ \<Rightarrow> PyNone)"

definition nyt_dict :: "nyt_data \<Rightarrow> py_dict" where
  "nyt_dict d =
     [(''source_filepath'', PyStr (source_filepath d)),
      (''format_type'', PyStr (format_type d)),
      (''format_note'', placeholder_value d ''format_note''),
      (''headline'', py_opt (headline d)),
      (''body'', py_opt (body d)),
      (''publication_date'', py_opt (publication_date d)),
      (''nyt_internal_id'', py_opt (nyt_internal_id d)),
      (''nyt_country_codes'', py_opt (nyt_country_codes d))] @
     map (\<lambda>k. (k, placeholder_value d k)) (tl placeholder_keys)"

text \<open>\<open>{col: metadata.get(col) for col in target_cols}\<close>.\<close>

definition project :: "string list \<Rightarrow> py_dict \<Rightarrow> py_dict" where
  "project target_cols metadata = map (\<lambda>col. (col, dict_get metadata col)) (rev (remdups (rev target_cols)))"

definition PROQUEST_SEPARATOR :: string where
  "PROQUEST_SEPARATOR = NL # ''Document ''"

text \<open>
  \<open>chunks[2:-1] if len(chunks) > 3 else [c for c in chunks if c.strip()]\<close>. The slice
  \<open>[2:-1]\<close> keeps the positions from 2 up to, and without, the last one.
\<close>

definition article_chunks_of :: "string list \<Rightarrow> string list" where
  "article_chunks_of chunks =
     (if length chunks > 3 then drop 2 (take (length chunks - 1) chunks)
      else filter (\<lambda>c. strip c \<noteq> []) chunks)"

text \<open>
  The loop over the ProQuest chunks. \<open>parser_func\<close> is the parser the worker calls; it
  raises (\<open>Inl\<close>) or returns a dictionary, and an empty dictionary is falsy.
\<close>

definition pq_chunk_step ::
  "(string \<Rightarrow> py_error + py_dict) \<Rightarrow> string list \<Rightarrow> string \<Rightarrow> string \<Rightarrow> py_dict list \<Rightarrow> py_dict list" where
  "pq_chunk_step parser_func target_cols file_path article_text parsed_articles =
     (let article_text = strip article_text
      in if article_text = [] then parsed_articles
         else (case parser_func article_text of
                 Inl _ \<Rightarrow> parsed_articles
               | Inr metadata \<Rightarrow>
                   if metadata \<noteq> []
                   then parsed_articles @
                          [project target_cols
                             (if ''file_path'' \<in> set target_cols
                              then dict_set metadata ''file_path'' (PyStr file_path)
                              else metadata)]
                   else parsed_articles))"

text \<open>
  The loop over the NYT blocks, on the pair \<open>(parsed_articles, all_bad_keys_in_file)\<close>.
  The warnings are only logged. A returned record is a dictionary of twenty keys and so
  truthy; a bad-key tuple has three components and so is truthy.
\<close>

type_synonym nyt_parse_result = "nyt_data option \<times> bad_key option \<times> string list"

definition nyt_block_step ::
  "(string \<Rightarrow> string \<Rightarrow> py_error + nyt_parse_result) \<Rightarrow> string list \<Rightarrow> string \<Rightarrow> string \<Rightarrow>
   py_dict list \<times> bad_key list \<Rightarrow> py_dict list \<times> bad_key list" where
  "nyt_block_step parser_func target_cols file_path article_block acc =
     (let block_content = strip article_block
      in if block_content = [] then acc
         else (case parser_func block_content file_path of
                 Inl _ \<Rightarrow> acc
               | Inr (parsed_data, bad_key_found, warnings_found) \<Rightarrow>
                   (case parsed_data of
                      None \<Rightarrow> acc
                    | Some d \<Rightarrow>
                        (fst acc @ [project target_cols (nyt_dict d)],
                         (case bad_key_found of
                            None \<Rightarrow> snd acc
                          | Some bk \<Rightarrow> snd acc @ [bk])))))"

text \<open>
  Whether an iteration of the two loops appends a record: the chunk or block is not blank,
  the parser does not raise, and what it returns is truthy.
\<close>

definition pq_chunk_yields :: "(string \<Rightarrow> py_error + py_dict) \<Rightarrow> string \<Rightarrow> bool" where
  "pq_chunk_yields parser_func article_text \<longleftrightarrow>
     strip article_text \<noteq> [] \<and>
     (case parser_func (strip article_text) of Inl _ \<Rightarrow> False | Inr metadata \<Rightarrow> metadata \<noteq> [])"

definition nyt_block_yields :: "(string \<Rightarrow> string \<Rightarrow> py_error + nyt_parse_result) \<Rightarrow> string \<Rightarrow> string \<Rightarrow> bool" where
  "nyt_block_yields parser_func path article_block \<longleftrightarrow>
     strip article_block \<noteq> [] \<and>
     (case parser_func (strip article_block) path of
        Inl _ \<Rightarrow> False
      | Inr res \<Rightarrow> fst res \<noteq> None)"

subsection \<open>The worker\<close>

text \<open>
  The configuration values the worker reads, the two column lists of its argument tuple,
  and what the worker cannot decide by itself: the two parsers it calls, the conversion to
  an Arrow table (which may raise) and the Parquet write (which may raise).
\<close>

record worker_config =
  proquest_separator :: "string option"
  nyt_cfg :: nyt_config
  proquest_cols :: "string list"
  nyt_cols :: "string list"

record worker_ctx =
  pq_parser_func :: "string \<Rightarrow> py_error + py_dict"
  nyt_parser_func :: "string \<Rightarrow> string \<Rightarrow> py_error + nyt_parse_result"
  to_arrow :: "string \<Rightarrow> string list \<Rightarrow> py_dict list \<Rightarrow> py_error + py_dict list"
  write_table :: "string \<Rightarrow> py_dict list \<Rightarrow> py_error + unit"

record 'b task =
  file_path :: string
  file_type :: string
  fs :: "'b reader_env"
  temp_filepath :: string

text \<open>
  The value a worker returns, \<open>(temp_filepath, file_type, bad_keys)\<close>, together with the
  table it wrote to \<open>temp_filepath\<close>.
\<close>

record worker_result =
  result_path :: string
  data_type :: string
  bad_keys :: "bad_key list option"
  written :: "py_dict list"

text \<open>Steps 3 and 4, from \<open>if not parsed_articles\<close> on.\<close>

definition finish_worker ::
  "worker_ctx \<Rightarrow> 'b task \<Rightarrow> string list \<Rightarrow> py_dict list \<Rightarrow> bad_key list \<Rightarrow> worker_result option" where
  "finish_worker ctx t target_cols parsed_articles all_bad_keys_in_file =
     (if parsed_articles = [] then None
      else (case to_arrow ctx (file_type t) target_cols parsed_articles of
              Inl _ \<Rightarrow> None
            | Inr arrow_table \<Rightarrow>
                (case write_table ctx (temp_filepath t) arrow_table of
                   Inl _ \<Rightarrow> None
                 | Inr _ \<Rightarrow>
                     Some \<lparr> result_path = temp_filepath t, data_type = file_type t,
                            bad_keys = (if file_type t = ''nyt'' then Some all_bad_keys_in_file
                                        else None),
                            written = arrow_table \<rparr>)))"

text \<open>
  \<open>process_file_worker\<close>. An exception that reaches the outer \<open>try\<close>, such as the
  \<open>ValueError\<close> of a split on an empty separator, makes the worker return \<open>None\<close>.
\<close>

definition process_file_worker ::
  "worker_ctx \<Rightarrow> worker_config \<Rightarrow> 'b task \<Rightarrow> worker_result option" where
  "process_file_worker ctx cfg t =
     (case read_file_content (fs t) of
        None \<Rightarrow> None
      | Some content \<Rightarrow>
          if file_type t = ''proquest'' then
            (case py_split content
                    (case proquest_separator cfg of None \<Rightarrow> PROQUEST_SEPARATOR | Some s \<Rightarrow> s) of
               Inl _ \<Rightarrow> None
             | Inr chunks \<Rightarrow>
                 (let article_chunks = article_chunks_of chunks
                  in if article_chunks = [] then None
                     else finish_worker ctx t (proquest_cols cfg)
                            (fold (pq_chunk_step (pq_parser_func ctx) (proquest_cols cfg) (file_path t))
                               article_chunks [])
                            []))
          else if file_type t = ''nyt'' then
            (case py_split content (article_separator (nyt_cfg cfg)) of
               Inl _ \<Rightarrow> None
             | Inr article_blocks \<Rightarrow>
                 (let acc = fold (nyt_block_step (nyt_parser_func ctx) (nyt_cols cfg) (file_path t))
                              article_blocks ([], [])
                  in finish_worker ctx t (nyt_cols cfg) (fst acc) (snd acc)))
          else None)"

text \<open>The NYT parser of the repository as the worker calls it: it does not raise.\<close>

definition nyt_parser_of :: "(string \<Rightarrow> bool) \<Rightarrow> nyt_config \<Rightarrow> string \<Rightarrow> string \<Rightarrow> py_error + nyt_parse_result" where
  "nyt_parser_of uuid_parses cfg block filepath = Inr (parse_nyt_article uuid_parses cfg block filepath)"

section \<open>The bulk loader\<close>

text \<open>
  The three tables the loader writes. A row of \<open>raw.articles\<close> or \<open>raw.parsed_articles\<close>
  is its \<open>id\<close> (\<open>UBIGINT PRIMARY KEY\<close>) and its other columns; a row of
  \<open>staging.bad_keys\<close> is the triple under the \<open>UNIQUE (key, filepath, reason)\<close>
  constraint and its \<open>first_detected_timestamp\<close>.
\<close>

record db =
  raw_articles :: "(nat \<times> py_dict) list"
  raw_parsed_articles :: "(nat \<times> py_dict) list"
  staging_bad_keys :: "(bad_key \<times> nat) list"

text \<open>
  What the database calls do is outside the program. For each of the three transactions:
  whether \<open>conn.begin()\<close> raises, whether a statement inside the \<open>try\<close> block raises (an
  unreadable artifact, a column that does not convert, a failing \<open>commit\<close>), and whether
  the \<open>conn.rollback()\<close> of the handler raises. \<open>now\<close> is \<open>current_timestamp\<close>.
\<close>

record tx_env =
  begin_raises :: bool
  body_raises :: bool
  rollback_raises :: bool

record db_env =
  proquest_env :: tx_env
  nyt_env :: tx_env
  bad_keys_env :: tx_env
  now :: nat

definition UBIGINT_MAX :: nat where
  "UBIGINT_MAX = 2 ^ 64 - 1"

text \<open>\<open>SELECT COALESCE(MAX(id), 0) FROM target\<close>.\<close>

definition max_id :: "(nat \<times> 'r) list \<Rightarrow> nat" where
  "max_id tbl = foldr max (map fst tbl) 0"

text \<open>
  \<open>SELECT max_id_current + row_number() OVER () AS id, cols FROM temp\<close>: the rows of the
  temporary table are numbered from 1.
\<close>

definition with_ids :: "nat \<Rightarrow> 'r list \<Rightarrow> (nat \<times> 'r) list" where
  "with_ids max_id_current rows = map (\<lambda>(row_number, r). (max_id_current + row_number, r)) (enumerate 1 rows)"

text \<open>
  \<open>INSERT INTO target (id, cols) SELECT ...\<close>: the statement raises when an identifier
  does not fit the column type or violates the primary key, and inserts all rows
  otherwise.
\<close>

definition insert_rows :: "(nat \<times> 'r) list \<Rightarrow> (nat \<times> 'r) list \<Rightarrow> py_error + (nat \<times> 'r) list" where
  "insert_rows tbl new_rows =
     (if list_ex (\<lambda>(i, r). i > UBIGINT_MAX) new_rows then Inl OtherError
      else if list_ex (\<lambda>(i, r). i \<in> set (map fst tbl)) new_rows \<or> \<not> distinct (map fst new_rows)
      then Inl OtherError
      else Inr (tbl @ new_rows))"

text \<open>
  The body of the \<open>try\<close> block of one format group, from \<open>CREATE TEMP TABLE\<close> to
  \<open>commit\<close>: \<open>Inr\<close> is the table as committed, \<open>Inl\<close> an exception.
  \<open>read_parquet(files, union_by_name=True)\<close> yields the rows of the files, one file after
  the other.
\<close>

definition load_group :: "bool \<Rightarrow> (nat \<times> py_dict) list \<Rightarrow> py_dict list list \<Rightarrow> py_error + (nat \<times> py_dict) list" where
  "load_group raises tbl files =
     (if raises then Inl OtherError
      else (let temp_table = concat files;
                max_id_current = max_id tbl
            in insert_rows tbl (with_ids max_id_current temp_table)))"

text \<open>\<open>INSERT OR IGNORE INTO bad_keys (key, filepath, reason) VALUES (?, ?, ?)\<close>, once.\<close>

definition insert_or_ignore :: "nat \<Rightarrow> bad_key \<Rightarrow> (bad_key \<times> nat) list \<Rightarrow> (bad_key \<times> nat) list" where
  "insert_or_ignore ts bk tbl = (if bk \<in> set (map fst tbl) then tbl else tbl @ [(bk, ts)])"

text \<open>\<open>executemany\<close> over \<open>bad_keys_tuples\<close>.\<close>

definition persist_bad_keys :: "nat \<Rightarrow> bad_key list \<Rightarrow> (bad_key \<times> nat) list \<Rightarrow> (bad_key \<times> nat) list" where
  "persist_bad_keys ts bad_keys_tuples tbl = fold (insert_or_ignore ts) bad_keys_tuples tbl"

text \<open>
  Where control is after a block of step 4. \<open>Next\<close>: at the statement that follows, with
  the database and \<open>overall_success\<close>. \<open>Raised\<close>: an exception has left the block for the
  handler of the outer \<open>try\<close>; the database is the committed one, since the \<open>finally\<close>
  block closes the connection and a transaction left open is discarded with it.
\<close>

datatype flow = Next "db \<times> bool" | Raised db

text \<open>
  The block of one format group. \<open>conn.begin()\<close> stands before the \<open>try\<close>, so its
  exception leaves the block. An exception inside the \<open>try\<close> is handled: \<open>conn.rollback()\<close>
  restores the table as it was when the transaction began, then \<open>overall_success = False\<close>;
  the rollback is not guarded, so its own exception leaves the block.
\<close>

definition proquest_tx :: "db_env \<Rightarrow> py_dict list list \<Rightarrow> db \<times> bool \<Rightarrow> flow" where
  "proquest_tx env proquest_files st =
     (if proquest_files \<noteq> []
      then (if begin_raises (proquest_env env) then Raised (fst st)
            else (case load_group (body_raises (proquest_env env)) (raw_articles (fst st))
                         proquest_files of
                    Inr tbl \<Rightarrow> Next ((fst st)\<lparr>raw_articles := tbl\<rparr>, snd st)
                  | Inl _ \<Rightarrow>
                      if rollback_raises (proquest_env env) then Raised (fst st)
                      else Next (fst st, False)))
      else Next st)"

definition nyt_tx :: "db_env \<Rightarrow> py_dict list list \<Rightarrow> db \<times> bool \<Rightarrow> flow" where
  "nyt_tx env nyt_files st =
     (if nyt_files \<noteq> []
      then (if begin_raises (nyt_env env) then Raised (fst st)
            else (case load_group (body_raises (nyt_env env)) (raw_parsed_articles (fst st))
                         nyt_files of
                    Inr tbl \<Rightarrow> Next ((fst st)\<lparr>raw_parsed_articles := tbl\<rparr>, snd st)
                  | Inl _ \<Rightarrow>
                      if rollback_raises (nyt_env env) then Raised (fst st)
                      else Next (fst st, False)))
      else Next st)"

text \<open>
  The block of the bad keys: the same shape, but its handler leaves \<open>overall_success\<close>
  as it is.
\<close>

definition bad_keys_tx :: "db_env \<Rightarrow> bad_key list \<Rightarrow> db \<times> bool \<Rightarrow> flow" where
  "bad_keys_tx env all_bad_keys st =
     (if all_bad_keys \<noteq> []
      then (if begin_raises (bad_keys_env env) then Raised (fst st)
            else if body_raises (bad_keys_env env)
            then (if rollback_raises (bad_keys_env env) then Raised (fst st) else Next st)
            else Next ((fst st)\<lparr>staging_bad_keys :=
                          persist_bad_keys (now env) all_bad_keys (staging_bad_keys (fst st))\<rparr>,
                       snd st))
      else Next st)"

text \<open>One block after another: an exception that has left a block skips the later ones.\<close>

definition then_tx :: "flow \<Rightarrow> (db \<times> bool \<Rightarrow> flow) \<Rightarrow> flow" where
  "then_tx f g = (case f of Next st \<Rightarrow> g st | Raised d \<Rightarrow> Raised d)"

text \<open>
  \<open>load_articles_parallel\<close> from the list of files on. The enumeration of the files, the
  reading of the column names of the two tables and the opening of the connection come
  first and are taken as done. With no file the function returns \<open>True\<close>. The
  intermediate results are the workers' values that are not \<open>None\<close>, here in the order of
  the tasks (the pool yields them in the order of completion); with none of them the
  function returns \<open>True\<close>. Otherwise the three blocks run one after the other and the
  function returns \<open>overall_success\<close>, unless an exception has left a block: then the outer
  handler returns \<open>False\<close>.
\<close>

definition proquest_files_of :: "worker_result list \<Rightarrow> py_dict list list" where
  "proquest_files_of intermediate_results =
     map written (filter (\<lambda>res. data_type res = ''proquest'') intermediate_results)"

definition nyt_files_of :: "worker_result list \<Rightarrow> py_dict list list" where
  "nyt_files_of intermediate_results =
     map written (filter (\<lambda>res. data_type res = ''nyt'') intermediate_results)"

definition all_bad_keys_of :: "worker_result list \<Rightarrow> bad_key list" where
  "all_bad_keys_of intermediate_results =
     concat (map (\<lambda>res. case bad_keys res of None \<Rightarrow> [] | Some bks \<Rightarrow> bks)
               (filter (\<lambda>res. data_type res = ''nyt'') intermediate_results))"

definition format_loads :: "db_env \<Rightarrow> worker_result list \<Rightarrow> db \<Rightarrow> flow" where
  "format_loads env intermediate_results d =
     then_tx (proquest_tx env (proquest_files_of intermediate_results) (d, True))
       (nyt_tx env (nyt_files_of intermediate_results))"

definition bulk_load :: "db_env \<Rightarrow> worker_result list \<Rightarrow> db \<Rightarrow> db \<times> bool" where
  "bulk_load env intermediate_results d =
     (if intermediate_results = [] then (d, True)
      else (case then_tx (format_loads env intermediate_results d)
                   (bad_keys_tx env (all_bad_keys_of intermediate_results)) of
              Next st \<Rightarrow> st
            | Raised d' \<Rightarrow> (d', False)))"


definition load_articles_parallel ::
  "worker_ctx \<Rightarrow> worker_config \<Rightarrow> db_env \<Rightarrow> 'b task list \<Rightarrow> db \<Rightarrow> db \<times> bool" where
  "load_articles_parallel ctx cfg env tasks d =
     (if tasks = [] then (d, True)
      else bulk_load env (List.map_filter (process_file_worker ctx cfg) tasks) d)"

subsection \<open>Concrete loader inputs for evaluation\<close>



definition sample_db :: db where
  "sample_db =
     \<lparr> raw_articles = [(7, [(''title'', PyStr ''Old'')])],
       raw_parsed_articles = [],
       staging_bad_keys = [] \<rparr>"

text \<open>
  Four behaviours of the database: nothing raises; a statement of the ProQuest transaction
  raises; that and the rollback after it raise; a statement of the bad-key transaction
  and the rollback after it raise.
\<close>

definition quiet_tx :: tx_env where
  "quiet_tx = \<lparr> begin_raises = False, body_raises = False, rollback_raises = False \<rparr>"

definition quiet_env :: db_env where
  "quiet_env = \<lparr> proquest_env = quiet_tx, nyt_env = quiet_tx, bad_keys_env = quiet_tx, now = 100 \<rparr>"

definition proquest_failing_env :: db_env where
  "proquest_failing_env = quiet_env\<lparr>proquest_env := quiet_tx\<lparr>body_raises := True\<rparr>\<rparr>"



section \<open>The regular expressions of the ProQuest parser\<close>

text \<open>
  The fragment of Python's \<open>re\<close> the patterns below are written in, as a backtracking
  matcher. A repetition applies to a character class only, as in all these patterns.
  The flags are part of the translation of a pattern: \<open>.\<close> is \<open>any_char\<close> under
  \<open>DOTALL\<close> and \<open>not_newline\<close> without it; \<open>^\<close> and \<open>$\<close> are \<open>Bol\<close> and \<open>EolM\<close> under
  \<open>MULTILINE\<close>, and \<open>$\<close> is \<open>Eol\<close> without it; a literal is \<open>LitI\<close> under \<open>IGNORECASE\<close>.
\<close>

datatype re =
    Lit string
  | LitI string
  | StarL "char \<Rightarrow> bool"
  | StarG "char \<Rightarrow> bool"
  | Seq re re
  | Alt re re
  | Opt re
  | Grp nat re
  | Look re
  | Bol
  | EolM
  | Eol

type_synonym caps = "nat \<rightharpoonup> nat \<times> nat"

definition any_char :: "char \<Rightarrow> bool" where
  "any_char c = True"

definition not_newline :: "char \<Rightarrow> bool" where
  "not_newline c \<longleftrightarrow> c \<noteq> NL"

text \<open>\<open>c*?\<close> takes as few characters as the rest of the pattern allows, \<open>c*\<close> as many.\<close>

fun lazy_star :: "(char \<Rightarrow> bool) \<Rightarrow> string \<Rightarrow> nat \<Rightarrow> (nat \<Rightarrow> caps option) \<Rightarrow> caps option" where
  "lazy_star p [] i k = k i"
| "lazy_star p (x # xs) i k =
     (case k i of
        Some r \<Rightarrow> Some r
      | None \<Rightarrow> if p x then lazy_star p xs (Suc i) k else None)"

fun greedy_star :: "(char \<Rightarrow> bool) \<Rightarrow> string \<Rightarrow> nat \<Rightarrow> (nat \<Rightarrow> caps option) \<Rightarrow> caps option" where
  "greedy_star p [] i k = k i"
| "greedy_star p (x # xs) i k =
     (if p x
      then (case greedy_star p xs (Suc i) k of Some r \<Rightarrow> Some r | None \<Rightarrow> k i)
      else k i)"

text \<open>
  \<open>rmatch r s i c k\<close>: match \<open>r\<close> in \<open>s\<close> from position \<open>i\<close> with the groups \<open>c\<close> captured
  so far, then continue with \<open>k\<close>; \<open>None\<close> when every alternative fails. A lookahead
  keeps the groups of its first match and consumes nothing.
\<close>

fun rmatch :: "re \<Rightarrow> string \<Rightarrow> nat \<Rightarrow> caps \<Rightarrow> (nat \<Rightarrow> caps \<Rightarrow> caps option) \<Rightarrow> caps option" where
  "rmatch (Lit l) s i c k =
     (if take (length l) (drop i s) = l then k (i + length l) c else None)"
| "rmatch (LitI l) s i c k =
     (if length l \<le> length (drop i s) \<and> py_lower (take (length l) (drop i s)) = py_lower l
      then k (i + length l) c else None)"
| "rmatch (StarL p) s i c k = lazy_star p (drop i s) i (\<lambda>j. k j c)"
| "rmatch (StarG p) s i c k = greedy_star p (drop i s) i (\<lambda>j. k j c)"
| "rmatch (Seq a b) s i c k = rmatch a s i c (\<lambda>j c'. rmatch b s j c' k)"
| "rmatch (Alt a b) s i c k =
     (case rmatch a s i c k of Some r \<Rightarrow> Some r | None \<Rightarrow> rmatch b s i c k)"
| "rmatch (Opt a) s i c k =
     (case rmatch a s i c k of Some r \<Rightarrow> Some r | None \<Rightarrow> k i c)"
| "rmatch (Grp n a) s i c k = rmatch a s i c (\<lambda>j c'. k j (c'(n \<mapsto> (i, j))))"
| "rmatch (Look a) s i c k =
     (case rmatch a s i c (\<lambda>j c'. Some c') of Some c' \<Rightarrow> k i c' | None \<Rightarrow> None)"
| "rmatch Bol s i c k = (if i = 0 \<or> s ! (i - 1) = NL then k i c else None)"
| "rmatch EolM s i c k = (if i = length s \<or> s ! i = NL then k i c else None)"
| "rmatch Eol s i c k =
     (if i = length s \<or> (Suc i = length s \<and> s ! i = NL) then k i c else None)"

fun first_some :: "('a \<Rightarrow> 'b option) \<Rightarrow> 'a list \<Rightarrow> 'b option" where
  "first_some f [] = None"
| "first_some f (x # xs) = (case f x of Some r \<Rightarrow> Some r | None \<Rightarrow> first_some f xs)"

text \<open>\<open>re.search\<close>: the match at the leftmost position where one exists.\<close>

definition re_search :: "re \<Rightarrow> string \<Rightarrow> caps option" where
  "re_search r s =
     first_some (\<lambda>i. rmatch r s i Map.empty (\<lambda>j c. Some (c(0 \<mapsto> (i, j))))) [0 ..< Suc (length s)]"

text \<open>\<open>match.group(n)\<close> for a group that took part in the match.\<close>

definition group :: "string \<Rightarrow> caps \<Rightarrow> nat \<Rightarrow> string" where
  "group s c n = (case c n of None \<Rightarrow> [] | Some (i, j) \<Rightarrow> take (j - i) (drop i s))"

text \<open>\<open>safe_search\<close>: the first group, stripped, or \<open>None\<close>.\<close>

definition safe_search :: "re \<Rightarrow> string \<Rightarrow> string option" where
  "safe_search pattern text = (case re_search pattern text of None \<Rightarrow> None | Some m \<Rightarrow> Some (strip (group text m 1)))"

fun seqs :: "re list \<Rightarrow> re" where
  "seqs [] = Lit []"
| "seqs [r] = r"
| "seqs (r # rs) = Seq r (seqs rs)"

fun alts :: "re list \<Rightarrow> re" where
  "alts [] = Lit []"
| "alts [r] = r"
| "alts (r # rs) = Alt r (alts rs)"

text \<open>
  \<open>^Title:\s*(.*?)(?=\n(?:Author:|Publication title:|Publicationtitle:|Abstract:|Full text:|$))\<close>
  with \<open>re.DOTALL | re.MULTILINE\<close>.
\<close>

definition TITLE_RE :: re where
  "TITLE_RE =
     seqs [Bol, Lit ''Title:'', StarG py_isspace, Grp 1 (StarL any_char),
           Look (Seq (Lit [NL])
                  (alts [Lit ''Author:'', Lit ''Publication title:'', Lit ''Publicationtitle:'',
                         Lit ''Abstract:'', Lit ''Full text:'', EolM]))]"

text \<open>\<open>(.*?)(?::\s*)?\[(.*?)\]\s*$\<close> without flags.\<close>

definition BRACKET_RE :: re where
  "BRACKET_RE =
     seqs [Grp 1 (StarL not_newline), Opt (Seq (Lit '':'') (StarG py_isspace)), Lit ''['',
           Grp 2 (StarL not_newline), Lit '']'', StarG py_isspace, Eol]"

text \<open>\<open>^Section\s*:(.*?)(?=\n|$)\<close> with \<open>re.MULTILINE | re.IGNORECASE\<close>.\<close>

definition SECTION_RE :: re where
  "SECTION_RE =
     seqs [Bol, LitI ''Section'', StarG py_isspace, Lit '':'', Grp 1 (StarL not_newline),
           Look (Alt (Lit [NL]) EolM)]"

section \<open>ProQuest parsing: title and section\<close>

text \<open>
  \<open>text.splitlines()\<close> ends a line at each of these characters; \<open>lines[0]\<close> is the text
  before the first of them.
\<close>

definition is_line_boundary :: "char \<Rightarrow> bool" where
  "is_line_boundary c \<longleftrightarrow> of_char c \<in> {10::nat, 11, 12, 13, 28, 29, 30, 133}"

definition first_line_of :: "string \<Rightarrow> string" where
  "first_line_of text = strip (takeWhile (\<lambda>c. \<not> is_line_boundary c) text)"

text \<open>
  The bracket at the end of a title line: \<open>extracted_section_from_title\<close>, when the
  pattern matches.
\<close>

definition section_in_title :: "string \<Rightarrow> string option" where
  "section_in_title title_line =
     (case re_search BRACKET_RE title_line of
        None \<Rightarrow> None
      | Some m \<Rightarrow> Some (strip (group title_line m 2)))"

text \<open>
  The part of \<open>extract_metadata_from_proquest\<close> that decides the keys \<open>raw_text_length\<close>,
  \<open>title\<close>, \<open>section_code\<close> and \<open>section\<close> of the returned dictionary. The other keys are
  extracted from the chunk independently of these and are not modelled. A string is
  truthy when it is not empty.
\<close>

text \<open>
  The fields \<open>pq_title\<close>, \<open>pq_section_code\<close> and \<open>pq_section\<close> are the keys \<open>title\<close>,
  \<open>section_code\<close> and \<open>section\<close>.
\<close>

record proquest_fields =
  raw_text_length :: nat
  pq_title :: "string option"
  pq_section_code :: "string option"
  pq_section :: "string option"

definition extract_metadata_from_proquest :: "string \<Rightarrow> proquest_fields option" where
  "extract_metadata_from_proquest text0 =
     (let text = strip text0
      in if text = [] then None
         else
           (let title_match = re_search TITLE_RE text;
                title_and_section =
                  (case title_match of
                     Some m \<Rightarrow>
                       (let raw_title_line = strip (group text m 1)
                        in (Some raw_title_line, section_in_title raw_title_line))
                   | None \<Rightarrow>
                       (let first_line = first_line_of text
                        in if first_line \<noteq> []
                           then (Some first_line, section_in_title first_line)
                           else (None, None)));
                extracted_section_from_title = snd title_and_section;
                code = safe_search SECTION_RE text
            in Some \<lparr> raw_text_length = length (filter (\<lambda>c. \<not> py_isspace c) text),
                      pq_title = fst title_and_section,
                      pq_section_code = code,
                      pq_section =
                        (if extracted_section_from_title \<noteq> None \<and> extracted_section_from_title \<noteq> Some []
                         then extracted_section_from_title
                         else if code \<noteq> None \<and> code \<noteq> Some []
                         then code
                         else None) \<rparr>))"

text \<open>The four keys as a dictionary, for the worker.\<close>

definition proquest_dict :: "proquest_fields option \<Rightarrow> py_dict" where
  "proquest_dict r =
     (case r of
        None \<Rightarrow> []
      | Some a \<Rightarrow>
          [(''raw_text_length'', PyInt (int (raw_text_length a))),
           (''title'', py_opt (pq_title a)),
           (''section_code'', py_opt (pq_section_code a)),
           (''section'', py_opt (pq_section a))])"

subsection \<open>Concrete worker inputs for evaluation\<close>

text \<open>
  Two files as lists of characters. The first is plain ASCII: the detector names
  \<open>ascii\<close>, and UTF-8 and ASCII decode it to itself. The second is not valid UTF-8: the
  detector names \<open>Windows-1252\<close> with confidence 0.95, and only the single-byte encodings
  decode it.
\<close>

definition ascii_file :: "string \<Rightarrow> string reader_env" where
  "ascii_file raw =
     \<lparr> file_bytes = Some raw,
       chardet_detect = (\<lambda>head. Inr \<lparr> encoding = Some ''ascii'', confidence = 1 \<rparr>),
       decode_strict = (\<lambda>enc bytes. if py_lower enc = ''utf-8'' \<or> py_lower enc = ''ascii''
                                       then Content bytes else ReadException),
       decode_replace = (\<lambda>bytes. bytes) \<rparr>"

definition cp1252_file :: "string \<Rightarrow> string reader_env" where
  "cp1252_file raw =
     \<lparr> file_bytes = Some raw,
       chardet_detect = (\<lambda>head. Inr \<lparr> encoding = Some ''Windows-1252'', confidence = 95 / 100 \<rparr>),
       decode_strict = (\<lambda>enc bytes. if py_lower enc = ''utf-8'' then UnicodeDecodeError
                                       else Content bytes),
       decode_replace = (\<lambda>bytes. bytes) \<rparr>"

text \<open>
  The worker with the parsers of the repository (the ProQuest one restricted to the keys
  modelled above), and with an Arrow conversion and a Parquet write that succeed.
\<close>

definition repo_ctx :: worker_ctx where
  "repo_ctx =
     \<lparr> pq_parser_func = (\<lambda>text. Inr (proquest_dict (extract_metadata_from_proquest text))),
       nyt_parser_func = nyt_parser_of canonical_uuid default_nyt_config,
       to_arrow = (\<lambda>ftype cols rows. Inr rows),
       write_table = (\<lambda>path tbl. Inr ()) \<rparr>"

definition sample_worker_config :: worker_config where
  "sample_worker_config =
     \<lparr> proquest_separator = None,
       nyt_cfg = default_nyt_config,
       proquest_cols = [''title'', ''section'', ''section_code'', ''file_path''],
       nyt_cols = [''source_filepath'', ''headline'', ''publication_date'', ''nyt_internal_id''] \<rparr>"

definition nyt_task :: "string \<Rightarrow> string task" where
  "nyt_task raw =
     \<lparr> file_path = ''sorted_1.txt'', file_type = ''nyt'', fs = ascii_file raw,
       temp_filepath = ''temp/nyt_1.parquet'' \<rparr>"

definition proquest_task :: "string \<Rightarrow> string task" where
  "proquest_task raw =
     \<lparr> file_path = ''ProQuestDocuments_1.txt'', file_type = ''proquest'', fs = ascii_file raw,
       temp_filepath = ''temp/proquest_1.parquet'' \<rparr>"


text \<open>Three file contents: an export of two articles, and two files without records.\<close>

definition two_article_export :: string where
  "two_article_export =
     ''head'' @ PROQUEST_SEPARATOR @ ''1 of 2'' @ PROQUEST_SEPARATOR @ ''Title: A [X]'' @
     PROQUEST_SEPARATOR @ ''Title: B'' @ PROQUEST_SEPARATOR @ ''foot''"

definition keyless_nyt_file :: string where
  "keyless_nyt_file =
     ''Headline: Storm'' @ [NL] @ article_separator default_nyt_config @ [NL] @ ''Headline: Flood''"

definition blank_proquest_file :: string where
  "blank_proquest_file = ''  '' @ PROQUEST_SEPARATOR @ '' ''"

section \<open>Properties of the NYT parser\<close>

lemma set_strip_subset: "set (strip s) \<subseteq> set s"
proof -
  have "set (strip s) \<subseteq> set (lstrip s)"
    unfolding strip_def rstrip_def using set_dropWhileD by fastforce
  moreover have "set (lstrip s) \<subseteq> set s"
    unfolding lstrip_def using set_dropWhileD by fastforce
  ultimately show ?thesis by blast
qed

lemma startswith_set: "startswith s p \<Longrightarrow> set p \<subseteq> set s"
  unfolding startswith_def by (metis set_take_subset)

lemma colon_in_line:
  assumes "startswith (strip line) p" and "CHR '':'' \<in> set p"
  shows "CHR '':'' \<in> set line"
  using assms startswith_set set_strip_subset by blast

lemma split_colon_1_Inr:
  assumes "CHR '':'' \<in> set line"
  shows "split_colon_1 line = Inr (drop 1 (dropWhile (\<lambda>c. c \<noteq> CHR '':'') line))"
proof -
  have "dropWhile (\<lambda>c. c \<noteq> CHR '':'') line \<noteq> []"
    using assms by (simp add: dropWhile_eq_Nil_conv) 
  then show ?thesis
    by (cases "dropWhile (\<lambda>c. c \<noteq> CHR '':'') line") (simp_all add: split_colon_1_def)
qed

lemma startswith_nonempty: "startswith s p \<Longrightarrow> p \<noteq> [] \<Longrightarrow> s \<noteq> []"
  unfolding startswith_def by auto

lemma startswith_hd: "startswith s (c # p) \<Longrightarrow> startswith s (d # q) \<Longrightarrow> c = d"
  unfolding startswith_def by (cases s) auto

lemma nyt_step_key:
  assumes "is_key_line line"
  shows "nyt_step u cfg fp line st = append_if_in_text line (on_key u fp line (field_value line) st)"
proof -
  have c: "CHR '':'' \<in> set line"
    using assms colon_in_line [of line "''Key:''"] by (simp add: is_key_line_def)
  have n: "strip line \<noteq> []"
    using assms startswith_nonempty [of "strip line" "''Key:''"] by (simp add: is_key_line_def)
  show ?thesis
    using assms n by (simp add: nyt_step_def is_key_line_def split_colon_1_Inr [OF c] field_value_def)
qed

lemma nyt_step_date:
  assumes "is_date_line line"
  shows "nyt_step u cfg fp line st = append_if_in_text line (on_date (field_value line) st)"
proof -
  have c: "CHR '':'' \<in> set line"
    using assms colon_in_line [of line "''Date:''"] by (simp add: is_date_line_def)
  have n: "strip line \<noteq> []"
    using assms startswith_nonempty [of "strip line" "''Date:''"] by (simp add: is_date_line_def)
  have k: "\<not> startswith (strip line) ''Key:''" "\<not> startswith (strip line) ''Headline:''"
    using assms startswith_hd [of "strip line" "CHR ''D''" "''ate:''"] by (auto simp: is_date_line_def)
  show ?thesis
    using assms n k by (simp add: nyt_step_def is_date_line_def split_colon_1_Inr [OF c] field_value_def)
qed


lemma nyt_step_not_key:
  assumes "\<not> is_key_line line"
  shows "nyt_internal_id (data (nyt_step u cfg fp line st)) = nyt_internal_id (data st)"
    and "bad_key_info (nyt_step u cfg fp line st) = bad_key_info st"
proof -
  have h: "startswith (strip line) ''Headline:'' \<Longrightarrow> \<exists>v. split_colon_1 line = Inr v"
    using colon_in_line [of line "''Headline:''"] split_colon_1_Inr by simp
  have d: "startswith (strip line) ''Date:'' \<Longrightarrow> \<exists>v. split_colon_1 line = Inr v"
    using colon_in_line [of line "''Date:''"] split_colon_1_Inr by simp
  have c: "startswith (strip line) ''Countries:'' \<Longrightarrow> \<exists>v. split_colon_1 line = Inr v"
    using colon_in_line [of line "''Countries:''"] split_colon_1_Inr by simp
  show "nyt_internal_id (data (nyt_step u cfg fp line st)) = nyt_internal_id (data st)"
    using assms h d c
    by (auto simp: nyt_step_def is_key_line_def append_if_in_text_def on_date_def Let_def)
  show "bad_key_info (nyt_step u cfg fp line st) = bad_key_info st"
    using assms h d c
    by (auto simp: nyt_step_def is_key_line_def append_if_in_text_def on_date_def Let_def)
qed

lemma nyt_step_key_id:
  assumes "is_key_line line"
  shows "nyt_internal_id (data (nyt_step u cfg fp line st)) = Some (field_value line)"
  by (simp add: nyt_step_key [OF assms] append_if_in_text_def on_key_def Let_def)

lemma nyt_step_bad_key:
  assumes "bad_key_line u line"
  shows "bad_key_info (nyt_step u cfg fp line st) =
         Some (field_value line, fp,
               if field_value line = [] then ''Empty Key'' else ''Invalid UUID'')"
  using assms
  by (auto simp: bad_key_line_def nyt_step_key append_if_in_text_def on_key_def Let_def
                is_valid_uuid_def split: if_splits)

lemma nyt_step_good_key:
  assumes "is_key_line line" and "\<not> bad_key_line u line"
  shows "bad_key_info (nyt_step u cfg fp line st) = bad_key_info st"
  using assms
  by (auto simp: bad_key_line_def nyt_step_key append_if_in_text_def on_key_def Let_def
                is_valid_uuid_def)

lemma nyt_loop_snoc:
  "nyt_loop u cfg fp (ls @ [l]) st = nyt_step u cfg fp l (nyt_loop u cfg fp ls st)"
  by (simp add: nyt_loop_def)

lemma nyt_loop_id:
  "nyt_internal_id (data (nyt_loop u cfg fp ls st)) =
     (if filter is_key_line ls = [] then nyt_internal_id (data st)
      else Some (field_value (last (filter is_key_line ls))))"
proof (induction ls rule: rev_induct)
  case Nil
  show ?case by (simp add: nyt_loop_def)
next
  case (snoc l ls)
  show ?case
  proof (cases "is_key_line l")
    case True
    then show ?thesis by (simp add: nyt_loop_snoc nyt_step_key_id)
  next
    case False
    then show ?thesis using snoc by (simp add: nyt_loop_snoc nyt_step_not_key(1))
  qed
qed

lemma nyt_loop_bad_key:
  "bad_key_info (nyt_loop u cfg fp ls st) =
     (if filter (bad_key_line u) ls = [] then bad_key_info st
      else Some (field_value (last (filter (bad_key_line u) ls)), fp,
                 if field_value (last (filter (bad_key_line u) ls)) = []
                 then ''Empty Key'' else ''Invalid UUID''))"
proof (induction ls rule: rev_induct)
  case Nil
  show ?case by (simp add: nyt_loop_def)
next
  case (snoc l ls)
  show ?case
  proof (cases "bad_key_line u l")
    case True
    then show ?thesis by (simp add: nyt_loop_snoc nyt_step_bad_key)
  next
    case False
    show ?thesis
    proof (cases "is_key_line l")
      case True
      then show ?thesis using False snoc by (simp add: nyt_loop_snoc nyt_step_good_key)
    next
      case nk: False
      then show ?thesis using False snoc by (simp add: nyt_loop_snoc nyt_step_not_key(2))
    qed
  qed
qed

lemma nyt_post_text_keeps:
  "nyt_internal_id (data (nyt_post_text st)) = nyt_internal_id (data st)"
  "bad_key_info (nyt_post_text st) = bad_key_info st"
  "publication_date (data (nyt_post_text st)) = publication_date (data st)"
  by (simp_all add: nyt_post_text_def)


lemma nyt_step_not_date:
  assumes "\<not> is_date_line line"
  shows "publication_date (data (nyt_step u cfg fp line st)) = publication_date (data st)"
  using assms
  by (auto simp: nyt_step_def is_date_line_def append_if_in_text_def on_key_def
                 on_index_error_def Let_def split: sum.splits)

lemma nyt_step_date_pub:
  assumes "is_date_line line"
  shows "publication_date (data (nyt_step u cfg fp line st)) =
         (if is_eight_digits (field_value line) then Some (reformat_date (field_value line))
          else None)"
  by (simp add: nyt_step_date [OF assms] append_if_in_text_def on_date_def)

lemma nyt_loop_date:
  "publication_date (data (nyt_loop u cfg fp ls st)) =
     (if filter is_date_line ls = [] then publication_date (data st)
      else if is_eight_digits (field_value (last (filter is_date_line ls)))
      then Some (reformat_date (field_value (last (filter is_date_line ls))))
      else None)"
proof (induction ls rule: rev_induct)
  case Nil
  show ?case by (simp add: nyt_loop_def)
next
  case (snoc l ls)
  show ?case
  proof (cases "is_date_line l")
    case True
    then show ?thesis by (simp add: nyt_loop_snoc nyt_step_date_pub)
  next
    case False
    then show ?thesis using snoc by (simp add: nyt_loop_snoc nyt_step_not_date)
  qed
qed

lemma nyt_step_warnings_mono: "set (warnings st) \<subseteq> set (warnings (nyt_step u cfg fp line st))"
  by (auto simp: nyt_step_def append_if_in_text_def on_key_def on_date_def
                 on_index_error_def Let_def split: sum.splits)

lemma nyt_loop_warnings_mono: "set (warnings st) \<subseteq> set (warnings (nyt_loop u cfg fp ls st))"
proof (induction ls rule: rev_induct)
  case Nil
  show ?case by (simp add: nyt_loop_def)
next
  case (snoc l ls)
  then show ?case using nyt_step_warnings_mono by (fastforce simp: nyt_loop_snoc)
qed

lemma is_eight_digits_nonempty: "is_eight_digits v \<Longrightarrow> v \<noteq> []"
  by (auto simp: is_eight_digits_def)

lemma nyt_step_date_warning:
  assumes "is_date_line line" and "\<not> is_eight_digits (field_value line)"
  shows "date_warning (field_value line) \<in> set (warnings (nyt_step u cfg fp line st))"
  using assms(2)
  by (simp add: nyt_step_date [OF assms(1)] append_if_in_text_def on_date_def date_warning_def)

lemma nyt_loop_date_warning:
  assumes "l \<in> set ls" and "is_date_line l" and "\<not> is_eight_digits (field_value l)"
  shows "date_warning (field_value l) \<in> set (warnings (nyt_loop u cfg fp ls st))"
  using assms
proof (induction ls rule: rev_induct)
  case Nil
  then show ?case by simp
next
  case (snoc x xs)
  show ?case
  proof (cases "l = x")
    case True
    then show ?thesis using snoc.prems nyt_step_date_warning by (simp add: nyt_loop_snoc)
  next
    case False
    then have "date_warning (field_value l) \<in> set (warnings (nyt_loop u cfg fp xs st))"
      using snoc by simp
    then show ?thesis using nyt_step_warnings_mono by (fastforce simp: nyt_loop_snoc)
  qed
qed

lemma nyt_post_text_warnings_mono: "set (warnings st) \<subseteq> set (warnings (nyt_post_text st))"
  by (auto simp: nyt_post_text_def)

lemma nyt_final_warnings_mono: "set (warnings st) \<subseteq> set (snd (snd (nyt_final st)))"
  by (auto simp: nyt_final_def)

lemma nyt_init_fields:
  "nyt_internal_id (data (nyt_init fp)) = None"
  "bad_key_info (nyt_init fp) = None"
  "publication_date (data (nyt_init fp)) = None"
  by (simp_all add: nyt_init_def)

lemma parse_nyt_article_record:
  "fst (parse_nyt_article u cfg block fp) =
     (if filter is_key_line (split_lines (strip block)) = [] then None
      else Some (data (nyt_post_text
             (nyt_loop u cfg fp (split_lines (strip block)) (nyt_init fp)))))"
  by (simp add: parse_nyt_article_def nyt_final_def nyt_post_text_keeps nyt_loop_id nyt_init_fields)

lemma parse_nyt_article_bad:
  "fst (snd (parse_nyt_article u cfg block fp)) =
     (if filter is_key_line (split_lines (strip block)) = [] then None
      else bad_key_info (nyt_loop u cfg fp (split_lines (strip block)) (nyt_init fp)))"
  by (simp add: parse_nyt_article_def nyt_final_def nyt_post_text_keeps nyt_loop_id nyt_init_fields)

lemma parse_nyt_article_warnings:
  "set (warnings (nyt_loop u cfg fp (split_lines (strip block)) (nyt_init fp)))
     \<subseteq> set (snd (snd (parse_nyt_article u cfg block fp)))"
  unfolding parse_nyt_article_def
  using nyt_post_text_warnings_mono nyt_final_warnings_mono by blast

lemma filter_bad_key_nonempty:
  "filter (bad_key_line u) ls \<noteq> [] \<Longrightarrow> filter is_key_line ls \<noteq> []"
  by (auto simp: filter_empty_conv bad_key_line_def)

lemma last_filter_holds: "filter P ls \<noteq> [] \<Longrightarrow> P (last (filter P ls))"
proof -
  assume "filter P ls \<noteq> []"
  then have "last (filter P ls) \<in> set (filter P ls)" by (rule last_in_set)
  then show ?thesis by simp
qed

text \<open>
  Claim C2. A block with a \<open>Key:\<close> line whose value is empty or fails the UUID check is
  not discarded: \<open>parse_nyt_article\<close> returns a record together with a bad-key tuple
  \<open>(key, filepath, reason)\<close>. The reason is \<open>Empty Key\<close> for an empty key and
  \<open>Invalid UUID\<close> otherwise, and the key of the tuple itself fails the check. The record's
  \<open>nyt_internal_id\<close> is the raw value of the (last) \<open>Key:\<close> line; for a block with a
  single \<open>Key:\<close> line that value is also the key of the tuple.
\<close>

theorem parse_nyt_article_bad_key:
  assumes "l \<in> set (split_lines (strip block))" and "is_key_line l"
    and "\<not> is_valid_uuid u (field_value l)"
  shows "\<exists>d k w. parse_nyt_article u cfg block fp =
           (Some d, Some (k, fp, if k = [] then ''Empty Key'' else ''Invalid UUID''), w)
         \<and> \<not> is_valid_uuid u k
         \<and> k = field_value (last (filter (bad_key_line u) (split_lines (strip block))))
         \<and> nyt_internal_id d =
             Some (field_value (last (filter is_key_line (split_lines (strip block)))))
         \<and> (filter is_key_line (split_lines (strip block)) = [l] \<longrightarrow>
              k = field_value l \<and> nyt_internal_id d = Some (field_value l))"
proof -
  let ?ls = "split_lines (strip block)"
  let ?S = "nyt_loop u cfg fp ?ls (nyt_init fp)"
  let ?k = "field_value (last (filter (bad_key_line u) ?ls))"
  have b: "bad_key_line u l" using assms by (simp add: bad_key_line_def)
  then have nb: "filter (bad_key_line u) ?ls \<noteq> []"
    using assms(1) by (auto simp: filter_empty_conv)
  then have nk: "filter is_key_line ?ls \<noteq> []" by (rule filter_bad_key_nonempty)
  have r: "fst (parse_nyt_article u cfg block fp) = Some (data (nyt_post_text ?S))"
    using nk by (simp add: parse_nyt_article_record)
  have bk: "fst (snd (parse_nyt_article u cfg block fp)) =
              Some (?k, fp, if ?k = [] then ''Empty Key'' else ''Invalid UUID'')"
    using nk nb by (simp add: parse_nyt_article_bad nyt_loop_bad_key nyt_init_fields)
  have inv: "\<not> is_valid_uuid u ?k"
    using last_filter_holds [OF nb] by (simp add: bad_key_line_def)
  have idd: "nyt_internal_id (data (nyt_post_text ?S)) =
               Some (field_value (last (filter is_key_line ?ls)))"
    using nk by (simp add: nyt_post_text_keeps nyt_loop_id)
  have single: "filter is_key_line ?ls = [l] \<longrightarrow> filter (bad_key_line u) ?ls = [l]"
  proof
    assume e: "filter is_key_line ?ls = [l]"
    have "filter (bad_key_line u) ?ls = filter (bad_key_line u) (filter is_key_line ?ls)"
      by (auto simp: bad_key_line_def intro: filter_cong)
    then show "filter (bad_key_line u) ?ls = [l]" using e b by simp
  qed
  obtain d k' w where p: "parse_nyt_article u cfg block fp = (d, k', w)"
    by (cases "parse_nyt_article u cfg block fp") auto
  show ?thesis using p r bk inv idd single by auto
qed

theorem parse_nyt_article_bad_key_witness:
  "''Key: 12345'' \<in> set (split_lines (strip (''Key: 12345'' @ [NL] @ ''Headline: Storm'')))
   \<and> is_key_line ''Key: 12345''
   \<and> \<not> is_valid_uuid canonical_uuid (field_value ''Key: 12345'')
   \<and> (\<exists>d w. parse_nyt_article canonical_uuid default_nyt_config
                (''Key: 12345'' @ [NL] @ ''Headline: Storm'') ''sorted_1.txt''
              = (Some d, Some (''12345'', ''sorted_1.txt'', ''Invalid UUID''), w)
            \<and> nyt_internal_id d = Some ''12345'')"
proof -
  let ?b = "''Key: 12345'' @ [NL] @ ''Headline: Storm''"
  have h1: "''Key: 12345'' \<in> set (split_lines (strip ?b))" by code_simp
  have h2: "is_key_line ''Key: 12345''" by code_simp
  have h3: "\<not> is_valid_uuid canonical_uuid (field_value ''Key: 12345'')" by code_simp
  have k: "field_value (last (filter (bad_key_line canonical_uuid) (split_lines (strip ?b)))) = ''12345''"
    by code_simp
  have i: "field_value (last (filter is_key_line (split_lines (strip ?b)))) = ''12345''"
    by code_simp
  from parse_nyt_article_bad_key [OF h1 h2 h3, of default_nyt_config "''sorted_1.txt''"]
  have "\<exists>d w. parse_nyt_article canonical_uuid default_nyt_config ?b ''sorted_1.txt''
              = (Some d, Some (''12345'', ''sorted_1.txt'', ''Invalid UUID''), w)
            \<and> nyt_internal_id d = Some ''12345''"
    unfolding k i by auto
  with h1 h2 h3 show ?thesis by blast
qed



subsection \<open>Date normalisation\<close>

lemma take_take_drop_6: "take 4 v @ take 2 (drop 4 v) @ drop 6 v = (v::'a list)"
proof -
  have "take 2 (drop 4 v) @ drop 2 (drop 4 v) = drop 4 v" by (rule append_take_drop_id)
  then have "take 2 (drop 4 v) @ drop 6 v = drop 4 v" by simp
  then have "take 4 v @ take 2 (drop 4 v) @ drop 6 v = take 4 v @ drop 4 v" by (rule arg_cong)
  then show ?thesis by (simp only: append_take_drop_id)
qed

lemma filter_all_id: "list_all P xs \<Longrightarrow> filter P xs = xs"
  by (simp add: list_all_iff)

lemma reformat_date_shape:
  assumes "is_eight_digits v"
  shows "length (reformat_date v) = 10 \<and> reformat_date v ! 4 = CHR ''-'' \<and>
         reformat_date v ! 7 = CHR ''-'' \<and> filter py_isdigit (reformat_date v) = v"
proof -
  have l: "length v = 8" and d: "list_all py_isdigit v"
    using assms by (auto simp: is_eight_digits_def)
  have nd: "\<not> py_isdigit (CHR ''-'')" by (simp add: py_isdigit_def)
  have s1: "length (reformat_date v) = 10" using l by (simp add: reformat_date_def)
  have s2: "reformat_date v ! 4 = CHR ''-''" using l by (simp add: reformat_date_def nth_append)
  have s3: "reformat_date v ! 7 = CHR ''-''" using l by (simp add: reformat_date_def nth_append)
  have "filter py_isdigit (reformat_date v) =
          filter py_isdigit (take 4 v) @ filter py_isdigit (take 2 (drop 4 v)) @
          filter py_isdigit (drop 6 v)"
    using nd by (simp add: reformat_date_def)
  also have "\<dots> = filter py_isdigit (take 4 v @ take 2 (drop 4 v) @ drop 6 v)" by simp
  also have "\<dots> = filter py_isdigit v" by (simp only: take_take_drop_6)
  also have "\<dots> = v" using d by (rule filter_all_id)
  finally have s4: "filter py_isdigit (reformat_date v) = v" .
  show ?thesis using s1 s2 s3 s4 by blast
qed


text \<open>
  Claim C5. For a block with a \<open>Date:\<close> line (the last one decides), with \<open>v\<close> the value
  after the colon: if \<open>v\<close> is exactly eight digits the record's \<open>publication_date\<close> is
  \<open>v\<close> rewritten as \<open>YYYY-MM-DD\<close> (ten characters, hyphens at positions 4 and 7, the
  digits of \<open>v\<close> in order); any other value, empty or not, gives \<open>None\<close>, and the
  warning of that case is among the returned warnings. Whether a record is returned
  depends on the presence of a \<open>Key:\<close> line only, never on the date.
\<close>

theorem parse_nyt_article_date:
  assumes "filter is_date_line (split_lines (strip block)) \<noteq> []"
    and "v = field_value (last (filter is_date_line (split_lines (strip block))))"
    and "parse_nyt_article u cfg block fp = (r, bk, w)"
  shows "(r \<noteq> None \<longleftrightarrow> filter is_key_line (split_lines (strip block)) \<noteq> [])
       \<and> (\<forall>d. r = Some d \<longrightarrow>
             publication_date d = (if is_eight_digits v then Some (reformat_date v) else None))
       \<and> (is_eight_digits v \<longrightarrow>
             length (reformat_date v) = 10 \<and> reformat_date v ! 4 = CHR ''-'' \<and>
             reformat_date v ! 7 = CHR ''-'' \<and> filter py_isdigit (reformat_date v) = v)
       \<and> (\<not> is_eight_digits v \<and> v \<noteq> [] \<longrightarrow>
             (''Non-standard date format: '' @ quoted v @ ''. Storing as NULL.'') \<in> set w)
       \<and> (v = [] \<longrightarrow> ''Empty Date field found. Storing as NULL.'' \<in> set w)"
proof -
  let ?ls = "split_lines (strip block)"
  let ?S = "nyt_loop u cfg fp ?ls (nyt_init fp)"
  have r: "r = fst (parse_nyt_article u cfg block fp)"
    and w: "w = snd (snd (parse_nyt_article u cfg block fp))"
    using assms(3) by simp_all
  have c1: "r \<noteq> None \<longleftrightarrow> filter is_key_line ?ls \<noteq> []"
    unfolding r by (simp add: parse_nyt_article_record)
  have pd: "publication_date (data (nyt_post_text ?S)) =
              (if is_eight_digits v then Some (reformat_date v) else None)"
    using assms(1) unfolding assms(2) by (simp add: nyt_post_text_keeps nyt_loop_date)
  have c2: "\<forall>d. r = Some d \<longrightarrow>
             publication_date d = (if is_eight_digits v then Some (reformat_date v) else None)"
  proof (intro allI impI)
    fix d assume "r = Some d"
    then have "d = data (nyt_post_text ?S)"
      unfolding r by (simp add: parse_nyt_article_record split: if_splits)
    then show "publication_date d = (if is_eight_digits v then Some (reformat_date v) else None)"
      using pd by simp
  qed
  have c3: "is_eight_digits v \<longrightarrow>
             length (reformat_date v) = 10 \<and> reformat_date v ! 4 = CHR ''-'' \<and>
             reformat_date v ! 7 = CHR ''-'' \<and> filter py_isdigit (reformat_date v) = v"
    using reformat_date_shape by blast
  have l: "last (filter is_date_line ?ls) \<in> set ?ls"
          "is_date_line (last (filter is_date_line ?ls))"
    using last_in_set [OF assms(1)] by simp_all
  have dw: "\<not> is_eight_digits v \<longrightarrow> date_warning v \<in> set w"
    unfolding w assms(2)
    using nyt_loop_date_warning [OF l(1) l(2), of u cfg fp "nyt_init fp"]
          parse_nyt_article_warnings [of u cfg fp block] by blast
  have c4: "\<not> is_eight_digits v \<and> v \<noteq> [] \<longrightarrow>
             (''Non-standard date format: '' @ quoted v @ ''. Storing as NULL.'') \<in> set w"
    using dw unfolding date_warning_def by presburger
  have c5: "v = [] \<longrightarrow> ''Empty Date field found. Storing as NULL.'' \<in> set w"
    using dw is_eight_digits_nonempty [of v] unfolding date_warning_def by presburger
  show ?thesis using c1 c2 c3 c4 c5 by blast
qed

theorem parse_nyt_article_date_witness:
  "filter is_date_line (split_lines (strip (''Key: 12345'' @ [NL] @ ''Date: 20110203''))) \<noteq> []
   \<and> (\<exists>d bk w. parse_nyt_article canonical_uuid default_nyt_config
                 (''Key: 12345'' @ [NL] @ ''Date: 20110203'') ''sorted_1.txt'' = (Some d, bk, w)
               \<and> publication_date d = Some ''2011-02-03'')"
proof -
  let ?b = "''Key: 12345'' @ [NL] @ ''Date: 20110203''"
  have h1: "filter is_date_line (split_lines (strip ?b)) \<noteq> []" by code_simp
  have v: "field_value (last (filter is_date_line (split_lines (strip ?b)))) = ''20110203''"
    by code_simp
  have k: "filter is_key_line (split_lines (strip ?b)) \<noteq> []" by code_simp
  have e: "is_eight_digits ''20110203''" by code_simp
  have f: "reformat_date ''20110203'' = ''2011-02-03''" by code_simp
  obtain r bk w where p:
    "parse_nyt_article canonical_uuid default_nyt_config ?b ''sorted_1.txt'' = (r, bk, w)"
    by (cases "parse_nyt_article canonical_uuid default_nyt_config ?b ''sorted_1.txt''") auto
  from parse_nyt_article_date [OF h1 v [symmetric] p]
  have "r \<noteq> None" and "\<forall>d. r = Some d \<longrightarrow> publication_date d = Some ''2011-02-03''"
    using k e f by simp_all
  then obtain d where "r = Some d" and "publication_date d = Some ''2011-02-03''" by auto
  with p h1 show ?thesis by blast
qed

section \<open>Properties of the file worker\<close>

lemma rstrip_prefix: "\<exists>r. t = rstrip t @ r"
proof -
  have "rev (dropWhile py_isspace (rev t)) @ rev (takeWhile py_isspace (rev t))
          = rev (takeWhile py_isspace (rev t) @ dropWhile py_isspace (rev t))"
    by (simp only: rev_append)
  also have "\<dots> = rev (rev t)" by (simp only: takeWhile_dropWhile_id)
  also have "\<dots> = t" by simp
  finally have "t = rstrip t @ rev (takeWhile py_isspace (rev t))"
    unfolding rstrip_def by (rule sym)
  then show ?thesis by (rule exI)
qed

lemma strip_hd: "strip s \<noteq> [] \<Longrightarrow> \<not> py_isspace (hd (strip s))"
proof -
  assume ne: "strip s \<noteq> []"
  obtain r where r: "lstrip s = strip s @ r"
    using rstrip_prefix [of "lstrip s"] by (auto simp: strip_def)
  then have "hd (strip s) = hd (lstrip s)" using ne by (metis hd_append2)
  moreover have "lstrip s \<noteq> []" using r ne by auto
  then have "\<not> py_isspace (hd (lstrip s))" unfolding lstrip_def by (rule hd_dropWhile)
  ultimately show ?thesis by simp
qed

lemma strip_last: "strip s \<noteq> [] \<Longrightarrow> \<not> py_isspace (hd (rev (strip s)))"
proof -
  assume ne: "strip s \<noteq> []"
  have "rev (strip s) = dropWhile py_isspace (rev (lstrip s))"
    by (simp add: strip_def rstrip_def)
  moreover have "dropWhile py_isspace (rev (lstrip s)) \<noteq> []"
    using ne by (simp add: strip_def rstrip_def)
  then have "\<not> py_isspace (hd (dropWhile py_isspace (rev (lstrip s))))" by (rule hd_dropWhile)
  ultimately show ?thesis by simp
qed

lemma strip_strip: "strip (strip s) = strip s"
proof (cases "strip s = []")
  case True
  have "strip (strip s) = strip []" by (simp only: True)
  also have "\<dots> = []" by (simp add: strip_def rstrip_def lstrip_def)
  finally show ?thesis using True by simp
next
  case False
  have a: "dropWhile py_isspace (strip s) = strip s"
    using strip_hd [OF False] by (simp add: dropWhile_eq_self_iff)
  have b: "dropWhile py_isspace (rev (strip s)) = rev (strip s)"
    using strip_last [OF False] by (simp add: dropWhile_eq_self_iff)
  have "strip (strip s) = rev (dropWhile py_isspace (rev (dropWhile py_isspace (strip s))))"
    by (simp add: strip_def rstrip_def lstrip_def)
  also have "\<dots> = strip s" by (simp only: a b rev_rev_ident)
  finally show ?thesis .
qed

lemma no_key_line_in_empty: "filter is_key_line (split_lines []) = []"
  by (simp add: split_lines_def is_key_line_def strip_def rstrip_def lstrip_def startswith_def)

text \<open>
  Claim C3. \<open>parse_nyt_article\<close> returns no record exactly when the block has no
  \<open>Key:\<close> line, and then it returns no bad-key tuple either; in the worker such a block
  leaves the parsed articles and the bad keys of the file as they were, and a block with
  a \<open>Key:\<close> line adds one record.
\<close>

theorem nyt_block_without_key:
  "(fst (parse_nyt_article u cfg block fp) = None \<longleftrightarrow>
      filter is_key_line (split_lines (strip block)) = [])
   \<and> (fst (parse_nyt_article u cfg block fp) = None \<longrightarrow>
        fst (snd (parse_nyt_article u cfg block fp)) = None)
   \<and> (filter is_key_line (split_lines (strip block)) = [] \<longrightarrow>
        nyt_block_step (nyt_parser_of u cfg) cols fp block acc = acc)
   \<and> (filter is_key_line (split_lines (strip block)) \<noteq> [] \<longrightarrow>
        length (fst (nyt_block_step (nyt_parser_of u cfg) cols fp block acc))
          = Suc (length (fst acc)))"
proof -
  let ?ls = "split_lines (strip block)"
  let ?p = "parse_nyt_article u cfg (strip block) fp"
  have c1: "fst (parse_nyt_article u cfg block fp) = None \<longleftrightarrow> filter is_key_line ?ls = []"
    by (simp add: parse_nyt_article_record)
  have c2: "fst (parse_nyt_article u cfg block fp) = None \<longrightarrow>
              fst (snd (parse_nyt_article u cfg block fp)) = None"
    by (simp add: parse_nyt_article_record parse_nyt_article_bad split: if_splits)
  have w: "fst ?p = None \<longleftrightarrow> filter is_key_line ?ls = []"
    by (simp add: parse_nyt_article_record strip_strip)
  obtain r bk ws where p: "?p = (r, bk, ws)" by (cases ?p) auto
  have c3: "filter is_key_line ?ls = [] \<longrightarrow>
              nyt_block_step (nyt_parser_of u cfg) cols fp block acc = acc"
    using w p by (auto simp: nyt_block_step_def nyt_parser_of_def Let_def)
  have c4: "filter is_key_line ?ls \<noteq> [] \<longrightarrow>
              length (fst (nyt_block_step (nyt_parser_of u cfg) cols fp block acc))
                = Suc (length (fst acc))"
  proof
    assume k: "filter is_key_line ?ls \<noteq> []"
    then have "strip block \<noteq> []" using no_key_line_in_empty by auto
    moreover obtain d where "r = Some d" using w p k by (cases r) auto
    ultimately show "length (fst (nyt_block_step (nyt_parser_of u cfg) cols fp block acc))
                       = Suc (length (fst acc))"
      using p by (simp add: nyt_block_step_def nyt_parser_of_def Let_def)
  qed
  show ?thesis by (intro conjI) (fact c1 c2 c3 c4)+
qed

lemma take_drop_last:
  assumes "3 < length (chunks :: 'a list)"
  shows "chunks = take 2 chunks @ drop 2 (take (length chunks - 1) chunks) @ [last chunks]"
proof -
  let ?B = "take (length chunks - 1) chunks"
  have ne: "chunks \<noteq> []" using assms by auto
  have "chunks = butlast chunks @ [last chunks]" using ne by simp
  then have b: "chunks = ?B @ [last chunks]" by (simp only: butlast_conv_take)
  have "min 2 (length chunks - 1) = 2" using assms by simp
  then have "take 2 ?B = take 2 chunks" by (simp only: take_take)
  then have "?B = take 2 chunks @ drop 2 ?B" by (metis append_take_drop_id)
  then have "?B @ [last chunks] = (take 2 chunks @ drop 2 ?B) @ [last chunks]" by (rule arg_cong)
  with b have "chunks = (take 2 chunks @ drop 2 ?B) @ [last chunks]" by (rule trans)
  then show ?thesis by (simp only: append_assoc)
qed

text \<open>
  Claim C6. With more than three fragments the article chunks are all fragments but the
  first two and the last one; with three or fewer they are the fragments that are not
  blank. These chunks are the ones the worker parses.
\<close>

theorem proquest_article_chunks:
  "(3 < length chunks \<longrightarrow>
      chunks = take 2 chunks @ article_chunks_of chunks @ [last chunks]
      \<and> length (article_chunks_of chunks) = length chunks - 3)
   \<and> (length chunks \<le> 3 \<longrightarrow> article_chunks_of chunks = filter (\<lambda>c. strip c \<noteq> []) chunks)
   \<and> (read_file_content (fs t) = Some content \<and> file_type t = ''proquest''
        \<and> py_split content (case proquest_separator cfg of None \<Rightarrow> PROQUEST_SEPARATOR | Some s \<Rightarrow> s)
            = Inr chunks \<longrightarrow>
        process_file_worker ctx cfg t =
          (if article_chunks_of chunks = [] then None
           else finish_worker ctx t (proquest_cols cfg)
                  (fold (pq_chunk_step (pq_parser_func ctx) (proquest_cols cfg) (file_path t))
                     (article_chunks_of chunks) []) []))"
proof -
  have c1: "3 < length chunks \<longrightarrow>
      chunks = take 2 chunks @ article_chunks_of chunks @ [last chunks]
      \<and> length (article_chunks_of chunks) = length chunks - 3"
    using take_drop_last [of chunks] by (auto simp: article_chunks_of_def)
  have c2: "length chunks \<le> 3 \<longrightarrow> article_chunks_of chunks = filter (\<lambda>c. strip c \<noteq> []) chunks"
    by (simp add: article_chunks_of_def)
  have c3: "read_file_content (fs t) = Some content \<and> file_type t = ''proquest''
        \<and> py_split content (case proquest_separator cfg of None \<Rightarrow> PROQUEST_SEPARATOR | Some s \<Rightarrow> s)
            = Inr chunks \<longrightarrow>
        process_file_worker ctx cfg t =
          (if article_chunks_of chunks = [] then None
           else finish_worker ctx t (proquest_cols cfg)
                  (fold (pq_chunk_step (pq_parser_func ctx) (proquest_cols cfg) (file_path t))
                     (article_chunks_of chunks) []) [])"
    by (simp add: process_file_worker_def Let_def)
  show ?thesis by (intro conjI) (fact c1 c2 c3)+
qed

lemma py_lower_fallbacks:
  "py_lower ''utf-8'' = ''utf-8''" "py_lower ''windows-1252'' = ''windows-1252''"
  "py_lower ''iso-8859-1'' = ''iso-8859-1''"
  by (simp_all add: py_lower_def py_lower_char_def)

lemma py_lower_char_idem: "py_lower_char (py_lower_char c) = py_lower_char c"
proof -
  let ?n = "of_char c :: nat"
  have "?n mod 256 = ?n" by simp
  then have lt: "?n < 256" by (metis mod_less_divisor zero_less_numeral)
  show ?thesis
  proof (cases "(65 \<le> ?n \<and> ?n \<le> 90) \<or> (192 \<le> ?n \<and> ?n \<le> 214) \<or> (216 \<le> ?n \<and> ?n \<le> 222)")
    case True
    then have l: "py_lower_char c = char_of (?n + 32)" unfolding py_lower_char_def Let_def by (rule if_P)
    have m: "(of_char (char_of (?n + 32)) :: nat) = ?n + 32"
      using True by (simp only: of_char_of) auto
    have "py_lower_char (char_of (?n + 32)) = char_of (?n + 32)"
      using True unfolding py_lower_char_def Let_def m by auto
    then show ?thesis unfolding l .
  next
    case False
    then have "py_lower_char c = c" unfolding py_lower_char_def Let_def by (rule if_not_P)
    then show ?thesis by simp
  qed
qed

lemma py_lower_idem: "py_lower (py_lower s) = py_lower s"
  by (simp add: py_lower_def py_lower_char_idem)

lemma encodings_to_try_eq:
  "encodings_to_try de =
     [''utf-8''] @ detected_part de @
     filter (\<lambda>f. py_lower f \<notin> set (map py_lower (detected_part de)))
       [''windows-1252'', ''iso-8859-1'']"
proof (cases "detected_part de")
  case Nil
  then show ?thesis
    by (simp add: encodings_to_try_def ENCODING_FALLBACKS_def
                  add_fallback_def py_lower_fallbacks)
next
  case (Cons e es)
  then have "detected_part de = [e]" and "py_lower e \<noteq> ''utf-8''"
    by (auto simp: detected_part_def split: option.splits if_splits)
  then show ?thesis
    by (simp add: encodings_to_try_def ENCODING_FALLBACKS_def
                  add_fallback_def py_lower_fallbacks py_lower_idem)
qed

lemma encodings_to_try_distinct: "distinct (map py_lower (encodings_to_try de))"
proof (cases "detected_part de")
  case Nil
  then show ?thesis by (simp add: encodings_to_try_eq py_lower_fallbacks)
next
  case (Cons e es)
  then have "detected_part de = [e]" and "py_lower e \<noteq> ''utf-8''"
    by (auto simp: detected_part_def split: option.splits if_splits)
  then show ?thesis by (auto simp: encodings_to_try_eq py_lower_fallbacks)
qed

lemma try_encodings_first:
  "fst (try_encodings env encs n) =
     (case List.map_filter (strict_content env) encs of [] \<Rightarrow> None | c # cs \<Rightarrow> Some c)"
proof (induction encs arbitrary: n)
  case Nil
  show ?case by (simp add: List.map_filter_simps)
next
  case (Cons enc encs)
  show ?case
    by (cases "open_strict env enc") (simp_all add: Cons.IH List.map_filter_simps strict_content_def)
qed

lemma try_encodings_stops:
  assumes "open_strict env enc = Content c"
    and "\<forall>e \<in> set before. \<forall>c'. open_strict env e \<noteq> Content c'"
  shows "fst (try_encodings env (before @ enc # rest) n) = Some c"
  using assms
proof (induction before arbitrary: n)
  case Nil
  then show ?case by simp
next
  case (Cons b bs)
  then show ?case by (cases "open_strict env b") simp_all
qed

lemma detect_encoding_Some:
  "detect_encoding env = Some e \<longleftrightarrow>
     (\<exists>raw d. file_bytes env = Some raw \<and> chardet_detect env raw = Inr d \<and>
              encoding d = Some e \<and> e \<noteq> [] \<and> confidence d > 9 / 10)"
  by (auto simp: detect_encoding_def split: option.splits sum.splits)

text \<open>
  Claim C7. The candidates are \<open>utf-8\<close>, then the detected encoding (present only when the
  detector named it with confidence above 0.9 and it is not \<open>utf-8\<close> in any letter case),
  then \<open>windows-1252\<close> and \<open>iso-8859-1\<close> unless they repeat the detected one; no two
  candidates are equal up to letter case. The text returned is that of the first candidate
  whose strict read succeeds; when none does, it is the lossy UTF-8 decoding. No text is
  returned only when the file cannot be opened.
\<close>

theorem read_file_content_order:
  "encodings_to_try (detect_encoding env) =
      [''utf-8''] @ detected_part (detect_encoding env) @
      filter (\<lambda>f. py_lower f \<notin> set (map py_lower (detected_part (detect_encoding env))))
        [''windows-1252'', ''iso-8859-1'']
   \<and> distinct (map py_lower (encodings_to_try (detect_encoding env)))
   \<and> (detected_part (detect_encoding env) = [e] \<longleftrightarrow>
        (\<exists>raw d. file_bytes env = Some raw \<and> chardet_detect env raw = Inr d \<and>
                 encoding d = Some e \<and> e \<noteq> [] \<and> confidence d > 9 / 10)
        \<and> py_lower e \<noteq> ''utf-8'')
   \<and> (\<forall>before enc rest c.
         encodings_to_try (detect_encoding env) = before @ enc # rest \<and>
         open_strict env enc = Content c \<and>
         (\<forall>b \<in> set before. \<forall>c'. open_strict env b \<noteq> Content c') \<longrightarrow>
         read_file_content env = Some c)
   \<and> (\<forall>raw. file_bytes env = Some raw \<and>
         (\<forall>enc \<in> set (encodings_to_try (detect_encoding env)). \<forall>c. open_strict env enc \<noteq> Content c)
         \<longrightarrow> read_file_content env = Some (decode_replace env raw))
   \<and> (read_file_content env = None \<longleftrightarrow> file_bytes env = None)"
proof -
  let ?encs = "encodings_to_try (detect_encoding env)"
  have c1: "?encs = [''utf-8''] @ detected_part (detect_encoding env) @
      filter (\<lambda>f. py_lower f \<notin> set (map py_lower (detected_part (detect_encoding env))))
        [''windows-1252'', ''iso-8859-1'']"
    by (rule encodings_to_try_eq)
  have c2: "distinct (map py_lower ?encs)" by (rule encodings_to_try_distinct)
  have c3: "detected_part (detect_encoding env) = [e] \<longleftrightarrow>
        (\<exists>raw d. file_bytes env = Some raw \<and> chardet_detect env raw = Inr d \<and>
                 encoding d = Some e \<and> e \<noteq> [] \<and> confidence d > 9 / 10)
        \<and> py_lower e \<noteq> ''utf-8''"
  proof -
    have "detected_part (detect_encoding env) = [e] \<longleftrightarrow>
            detect_encoding env = Some e \<and> e \<noteq> [] \<and> py_lower e \<noteq> ''utf-8''"
      by (auto simp: detected_part_def split: option.splits if_splits)
    then show ?thesis unfolding detect_encoding_Some by blast
  qed
  have c4: "\<forall>before enc rest c.
         ?encs = before @ enc # rest \<and> open_strict env enc = Content c \<and>
         (\<forall>b \<in> set before. \<forall>c'. open_strict env b \<noteq> Content c') \<longrightarrow>
         read_file_content env = Some c"
  proof (intro allI impI)
    fix before enc rest c
    assume a: "?encs = before @ enc # rest \<and> open_strict env enc = Content c \<and>
         (\<forall>b \<in> set before. \<forall>c'. open_strict env b \<noteq> Content c')"
    then have "fst (try_encodings env (before @ enc # rest) 0) = Some c"
      using try_encodings_stops by blast
    then have "fst (try_encodings env ?encs 0) = Some c" using a by simp
    then show "read_file_content env = Some c" by (simp add: read_file_content_def)
  qed
  have none: "(\<forall>enc \<in> set ?encs. \<forall>c. open_strict env enc \<noteq> Content c) \<Longrightarrow>
                fst (try_encodings env ?encs 0) = None"
  proof -
    assume a: "\<forall>enc \<in> set ?encs. \<forall>c. open_strict env enc \<noteq> Content c"
    have "List.map_filter (strict_content env) ?encs = []"
      using a by (auto simp: List.map_filter_def strict_content_def filter_empty_conv
                       split: read_outcome.splits)
    then show ?thesis by (simp add: try_encodings_first)
  qed
  have c5: "\<forall>raw. file_bytes env = Some raw \<and>
         (\<forall>enc \<in> set ?encs. \<forall>c. open_strict env enc \<noteq> Content c)
         \<longrightarrow> read_file_content env = Some (decode_replace env raw)"
    using none by (auto simp: read_file_content_def open_replace_def)
  have c6: "read_file_content env = None \<longleftrightarrow> file_bytes env = None"
  proof (cases "file_bytes env")
    case None
    then have "\<forall>enc \<in> set ?encs. \<forall>c. open_strict env enc \<noteq> Content c"
      by (simp add: open_strict_def)
    then have "fst (try_encodings env ?encs 0) = None" by (rule none)
    then show ?thesis using None by (simp add: read_file_content_def open_replace_def)
  next
    case (Some raw)
    then show ?thesis
      by (simp add: read_file_content_def open_replace_def split: option.splits)
  qed
  show ?thesis by (intro conjI) (fact c1 c2 c3 c4 c5 c6)+
qed

lemma pq_chunk_step_length:
  "length (pq_chunk_step pf cols fp c acc) = length acc + (if pq_chunk_yields pf c then 1 else 0)"
  by (simp add: pq_chunk_step_def pq_chunk_yields_def Let_def split: sum.splits)

lemma pq_fold_length:
  "length (fold (pq_chunk_step pf cols fp) cs acc) = length acc + length (filter (pq_chunk_yields pf) cs)"
proof (induction cs arbitrary: acc)
  case Nil
  show ?case by simp
next
  case (Cons c cs)
  show ?case by (simp add: Cons.IH pq_chunk_step_length)
qed

lemma nyt_block_step_length:
  "length (fst (nyt_block_step pf cols fp b acc)) =
     length (fst acc) + (if nyt_block_yields pf fp b then 1 else 0)"
  by (auto simp: nyt_block_step_def nyt_block_yields_def Let_def split: sum.splits option.splits)

lemma nyt_block_step_bad_keys:
  "\<not> nyt_block_yields pf fp b \<Longrightarrow> nyt_block_step pf cols fp b acc = acc"
  by (auto simp: nyt_block_step_def nyt_block_yields_def Let_def split: sum.splits option.splits)

lemma nyt_fold_length:
  "length (fst (fold (nyt_block_step pf cols fp) bs acc)) =
     length (fst acc) + length (filter (nyt_block_yields pf fp) bs)"
proof (induction bs arbitrary: acc)
  case Nil
  show ?case by simp
next
  case (Cons b bs)
  show ?case by (simp add: Cons.IH nyt_block_step_length)
qed

lemma nyt_fold_nothing:
  "\<forall>b \<in> set bs. \<not> nyt_block_yields pf fp b \<Longrightarrow> fold (nyt_block_step pf cols fp) bs acc = acc"
  by (induction bs arbitrary: acc) (simp_all add: nyt_block_step_bad_keys)

lemma map_filter_drop_None:
  "f t = None \<Longrightarrow> List.map_filter f (ts1 @ t # ts2) = List.map_filter f (ts1 @ ts2)"
  by (simp add: List.map_filter_def)

text \<open>
  Claim C10. A file that is read but whose chunks or blocks yield no record (each is
  blank, makes the parser raise, or parses to nothing) makes the worker return \<open>None\<close>:
  no artifact is written, the intermediate results are those of the other files, and the
  load ends as it would without the file.
\<close>

theorem worker_without_records:
  assumes "read_file_content (fs t) = Some content"
    and "file_type t = ''proquest'' \<longrightarrow>
           (\<forall>chunks. py_split content
               (case proquest_separator cfg of None \<Rightarrow> PROQUEST_SEPARATOR | Some s \<Rightarrow> s) = Inr chunks
             \<longrightarrow> (\<forall>c \<in> set (article_chunks_of chunks). \<not> pq_chunk_yields (pq_parser_func ctx) c))"
    and "file_type t = ''nyt'' \<longrightarrow>
           (\<forall>blocks. py_split content (article_separator (nyt_cfg cfg)) = Inr blocks
             \<longrightarrow> (\<forall>b \<in> set blocks. \<not> nyt_block_yields (nyt_parser_func ctx) (file_path t) b))"
  shows "process_file_worker ctx cfg t = None
       \<and> List.map_filter (process_file_worker ctx cfg) (ts1 @ t # ts2)
           = List.map_filter (process_file_worker ctx cfg) (ts1 @ ts2)
       \<and> load_articles_parallel ctx cfg env (ts1 @ t # ts2) d
           = load_articles_parallel ctx cfg env (ts1 @ ts2) d"
proof -
  have n: "process_file_worker ctx cfg t = None"
  proof (cases "file_type t = ''proquest''")
    case True
    show ?thesis
    proof (cases "py_split content
               (case proquest_separator cfg of None \<Rightarrow> PROQUEST_SEPARATOR | Some s \<Rightarrow> s)")
      case (Inl e)
      then show ?thesis using True assms(1) by (simp add: process_file_worker_def)
    next
      case (Inr chunks)
      then have "\<forall>c \<in> set (article_chunks_of chunks). \<not> pq_chunk_yields (pq_parser_func ctx) c"
        using True assms(2) by blast
      then have "filter (pq_chunk_yields (pq_parser_func ctx)) (article_chunks_of chunks) = []"
        by (simp add: filter_empty_conv)
      then have "length (fold (pq_chunk_step (pq_parser_func ctx) (proquest_cols cfg) (file_path t))
                   (article_chunks_of chunks) []) = 0"
        by (simp add: pq_fold_length)
      then have "fold (pq_chunk_step (pq_parser_func ctx) (proquest_cols cfg) (file_path t))
                   (article_chunks_of chunks) [] = []"
        by simp
      then show ?thesis
        using True assms(1) Inr by (simp add: process_file_worker_def Let_def finish_worker_def)
    qed
  next
    case npq: False
    show ?thesis
    proof (cases "file_type t = ''nyt''")
      case True
      show ?thesis
      proof (cases "py_split content (article_separator (nyt_cfg cfg))")
        case (Inl e)
        then show ?thesis using True npq assms(1) by (simp add: process_file_worker_def)
      next
        case (Inr blocks)
        then have "\<forall>b \<in> set blocks. \<not> nyt_block_yields (nyt_parser_func ctx) (file_path t) b"
          using True assms(3) by blast
        then have "fold (nyt_block_step (nyt_parser_func ctx) (nyt_cols cfg) (file_path t)) blocks ([], [])
                     = ([], [])"
          by (rule nyt_fold_nothing)
        then show ?thesis
          using True npq assms(1) Inr
          by (simp add: process_file_worker_def Let_def finish_worker_def)
      qed
    next
      case False
      then show ?thesis using npq assms(1) by (simp add: process_file_worker_def)
    qed
  qed
  have m: "List.map_filter (process_file_worker ctx cfg) (ts1 @ t # ts2)
             = List.map_filter (process_file_worker ctx cfg) (ts1 @ ts2)"
    using n by (rule map_filter_drop_None)
  have l: "load_articles_parallel ctx cfg env (ts1 @ t # ts2) d
             = load_articles_parallel ctx cfg env (ts1 @ ts2) d"
  proof (cases "ts1 @ ts2 = []")
    case True
    then have "List.map_filter (process_file_worker ctx cfg) (ts1 @ t # ts2) = []"
      unfolding m by (simp add: List.map_filter_simps)
    then show ?thesis using True by (simp add: load_articles_parallel_def bulk_load_def)
  next
    case False
    then have "load_articles_parallel ctx cfg env (ts1 @ ts2) d
                 = bulk_load env (List.map_filter (process_file_worker ctx cfg) (ts1 @ ts2)) d"
      unfolding load_articles_parallel_def by (rule if_not_P)
    moreover have "load_articles_parallel ctx cfg env (ts1 @ t # ts2) d
                 = bulk_load env (List.map_filter (process_file_worker ctx cfg) (ts1 @ t # ts2)) d"
      unfolding load_articles_parallel_def by simp
    ultimately show ?thesis by (simp only: m)
  qed
  show ?thesis by (intro conjI) (fact n m l)+
qed

section \<open>Properties of the bulk loader\<close>

lemma max_id_Nil: "max_id [] = 0"
  by (simp add: max_id_def)

lemma max_id_ge: "i \<in> set (map fst tbl) \<Longrightarrow> i \<le> max_id tbl"
  unfolding max_id_def by (induction tbl) (auto simp: le_max_iff_disj)

lemma max_id_Max: "tbl \<noteq> [] \<Longrightarrow> max_id tbl = Max (set (map fst tbl))"
proof (induction tbl)
  case Nil
  then show ?case by simp
next
  case (Cons a tbl)
  show ?case
  proof (cases "tbl = []")
    case True
    then show ?thesis by (simp add: max_id_def)
  next
    case False
    then have "max_id tbl = Max (set (map fst tbl))" using Cons by simp
    moreover have "max_id (a # tbl) = max (fst a) (max_id tbl)" by (simp add: max_id_def)
    ultimately show ?thesis using False by simp
  qed
qed

lemma max_id_append: "max_id (xs @ ys) = max (max_id xs) (max_id ys)"
  unfolding max_id_def by (induction xs) auto

lemma with_ids_fst: "map fst (with_ids m rows) = [m + 1 ..< m + 1 + length rows]"
  by (rule nth_equalityI) (simp_all add: with_ids_def nth_enumerate_eq del: upt_Suc)

lemma with_ids_snd: "map snd (with_ids m rows) = rows"
proof -
  have "map snd (with_ids m rows) = map snd (enumerate 1 rows)"
    by (simp add: with_ids_def case_prod_unfold comp_def)
  then show ?thesis by simp
qed

lemma max_id_with_ids: "max_id (with_ids m rows) = (if rows = [] then 0 else m + length rows)"
proof (cases "rows = []")
  case True
  then show ?thesis by (simp add: with_ids_def max_id_def)
next
  case False
  have "length (with_ids m rows) = length rows" by (simp add: with_ids_def)
  then have ne: "with_ids m rows \<noteq> []" using False by (metis length_0_conv)
  have "max_id (with_ids m rows) = Max (set [m + 1 ..< m + 1 + length rows])"
    using max_id_Max [OF ne] by (simp only: with_ids_fst)
  also have "\<dots> = Max {m + 1 ..< m + 1 + length rows}" by (simp only: set_upt)
  also have "\<dots> = m + length rows"
  proof (rule Max_eqI)
    show "finite {m + 1 ..< m + 1 + length rows}" by simp
    show "\<And>y. y \<in> {m + 1 ..< m + 1 + length rows} \<Longrightarrow> y \<le> m + length rows" by simp
    show "m + length rows \<in> {m + 1 ..< m + 1 + length rows}"
      using False by (cases rows) simp_all
  qed
  finally show ?thesis using False by simp
qed

lemma insert_rows_with_ids:
  "insert_rows tbl (with_ids (max_id tbl) rows) =
     (if max_id tbl + length rows > UBIGINT_MAX \<and> rows \<noteq> [] then Inl OtherError
      else Inr (tbl @ with_ids (max_id tbl) rows))"
proof -
  let ?new = "with_ids (max_id tbl) rows"
  have ids: "set (map fst ?new) = {max_id tbl + 1 ..< max_id tbl + 1 + length rows}"
    by (simp only: with_ids_fst set_upt)
  have d: "distinct (map fst ?new)" by (simp only: with_ids_fst distinct_upt)
  have fresh: "\<not> list_ex (\<lambda>(i, r). i \<in> set (map fst tbl)) ?new"
  proof
    assume "list_ex (\<lambda>(i, r). i \<in> set (map fst tbl)) ?new"
    then obtain i r where m: "(i, r) \<in> set ?new" and e: "i \<in> set (map fst tbl)"
      by (auto simp: list_ex_iff)
    from m have "i \<in> set (map fst ?new)" by force
    then have "max_id tbl < i" unfolding ids by simp
    moreover have "i \<le> max_id tbl" using e by (rule max_id_ge)
    ultimately show False by simp
  qed
  have big: "list_ex (\<lambda>(i, r). i > UBIGINT_MAX) ?new \<longleftrightarrow>
               (max_id tbl + length rows > UBIGINT_MAX \<and> rows \<noteq> [])"
  proof -
    have "list_ex (\<lambda>(i, r). i > UBIGINT_MAX) ?new \<longleftrightarrow> (\<exists>i \<in> set (map fst ?new). i > UBIGINT_MAX)"
      by (force simp: list_ex_iff)
    also have "\<dots> \<longleftrightarrow> (\<exists>i \<in> {max_id tbl + 1 ..< max_id tbl + 1 + length rows}. i > UBIGINT_MAX)"
      by (simp only: ids)
    also have "\<dots> \<longleftrightarrow> (max_id tbl + length rows > UBIGINT_MAX \<and> rows \<noteq> [])"
    proof
      assume "\<exists>i \<in> {max_id tbl + 1 ..< max_id tbl + 1 + length rows}. i > UBIGINT_MAX"
      then show "max_id tbl + length rows > UBIGINT_MAX \<and> rows \<noteq> []" by auto
    next
      assume a: "max_id tbl + length rows > UBIGINT_MAX \<and> rows \<noteq> []"
      then have "max_id tbl + length rows \<in> {max_id tbl + 1 ..< max_id tbl + 1 + length rows}"
        by (cases rows) auto
      then show "\<exists>i \<in> {max_id tbl + 1 ..< max_id tbl + 1 + length rows}. i > UBIGINT_MAX"
        using a by blast
    qed
    finally show ?thesis .
  qed
  show ?thesis unfolding insert_rows_def using fresh d big by simp
qed

text \<open>
  Claim C1. When the transaction of a format group commits, the rows it inserts are the
  consolidated rows, in order, with the identifiers \<open>max + 1, ..., max + N\<close>, where \<open>max\<close>
  is the greatest identifier of the table before the insert (0 for an empty table) and
  \<open>N\<close> the number of consolidated rows: strictly increasing, without gaps, and none of
  them an identifier the table already had. The greatest identifier afterwards is
  \<open>max + N\<close>, so the next run continues from there.
\<close>

theorem load_group_identifiers:
  assumes "load_group raises tbl files = Inr tbl'"
  shows "\<exists>new_rows.
           tbl' = tbl @ new_rows
         \<and> map snd new_rows = concat files
         \<and> map fst new_rows = [max_id tbl + 1 ..< max_id tbl + 1 + length (concat files)]
         \<and> sorted_wrt (<) (map fst new_rows)
         \<and> (\<forall>i \<in> set (map fst new_rows). i \<notin> set (map fst tbl))
         \<and> (tbl = [] \<longrightarrow> max_id tbl = 0)
         \<and> (tbl \<noteq> [] \<longrightarrow> max_id tbl = Max (set (map fst tbl)))
         \<and> max_id tbl' = max_id tbl + length (concat files)"
proof -
  let ?rows = "concat files"
  let ?new = "with_ids (max_id tbl) ?rows"
  have nr: "\<not> raises" using assms by (auto simp: load_group_def)
  then have "insert_rows tbl ?new = Inr tbl'" using assms by (simp add: load_group_def)
  then have t: "tbl' = tbl @ ?new"
    by (simp add: insert_rows_with_ids split: if_splits)
  have f: "map fst ?new = [max_id tbl + 1 ..< max_id tbl + 1 + length ?rows]"
    by (rule with_ids_fst)
  have s: "sorted_wrt (<) (map fst ?new)" unfolding f by (rule sorted_wrt_upt)
  have fresh: "\<forall>i \<in> set (map fst ?new). i \<notin> set (map fst tbl)"
  proof
    fix i assume "i \<in> set (map fst ?new)"
    then have "max_id tbl < i" unfolding f by (simp del: upt_Suc)
    then show "i \<notin> set (map fst tbl)" using max_id_ge [of i tbl] by auto
  qed
  have m: "max_id tbl' = max_id tbl + length ?rows"
    unfolding t by (simp add: max_id_append max_id_with_ids)
  show ?thesis
    using t with_ids_snd [of "max_id tbl" ?rows] f s fresh m max_id_Nil max_id_Max [of tbl]
    by blast
qed

lemma load_group_commits:
  "(\<exists>tbl'. load_group raises tbl files = Inr tbl') \<longleftrightarrow>
     \<not> raises \<and> (concat files = [] \<or> max_id tbl + length (concat files) \<le> UBIGINT_MAX)"
proof (cases raises)
  case True
  then show ?thesis by (simp add: load_group_def)
next
  case False
  show ?thesis
  proof (cases "concat files = [] \<or> max_id tbl + length (concat files) \<le> UBIGINT_MAX")
    case True
    then have "load_group raises tbl files = Inr (tbl @ with_ids (max_id tbl) (concat files))"
      using False unfolding load_group_def Let_def insert_rows_with_ids by auto
    then show ?thesis using False True by simp
  next
    case no: False
    then have "load_group raises tbl files = Inl OtherError"
      using False unfolding load_group_def Let_def insert_rows_with_ids by auto
    then show ?thesis using no by simp
  qed
qed

theorem load_group_identifiers_witness:
  "load_group False [(7, [(''title'', PyStr ''a'')])]
     [[[(''title'', PyStr ''b'')]], [[(''title'', PyStr ''c'')]]]
     = Inr [(7, [(''title'', PyStr ''a'')]), (8, [(''title'', PyStr ''b'')]),
            (9, [(''title'', PyStr ''c'')])]
   \<and> (\<exists>new_rows. [(7::nat, [(''title'', PyStr ''a'')]), (8, [(''title'', PyStr ''b'')]),
                     (9, [(''title'', PyStr ''c'')])]
                    = [(7, [(''title'', PyStr ''a'')])] @ new_rows
                  \<and> map fst new_rows = [8, 9])"
proof -
  let ?tbl = "[(7::nat, [(''title'', PyStr ''a'')])]"
  let ?files = "[[[(''title'', PyStr ''b'')]], [[(''title'', PyStr ''c'')]]]"
  let ?out = "[(7::nat, [(''title'', PyStr ''a'')]), (8, [(''title'', PyStr ''b'')]),
               (9, [(''title'', PyStr ''c'')])]"
  have h: "load_group False ?tbl ?files = Inr ?out"
    by (simp add: load_group_def insert_rows_def with_ids_def max_id_def UBIGINT_MAX_def)
  have m: "[max_id ?tbl + 1 ..< max_id ?tbl + 1 + length (concat ?files)] = [8, 9]"
    by (simp add: max_id_def)
  from load_group_identifiers [OF h] obtain new_rows where
    n1: "?out = ?tbl @ new_rows" and
    n2: "map fst new_rows = [max_id ?tbl + 1 ..< max_id ?tbl + 1 + length (concat ?files)]"
    by blast
  have n3: "map fst new_rows = [8, 9]" using n2 unfolding m .
  have "\<exists>new_rows. ?out = ?tbl @ new_rows \<and> map fst new_rows = [8, 9]"
    using n1 n3 by (intro exI conjI)
  then show ?thesis by (intro conjI) (rule h)
qed

subsection \<open>The three blocks of the bulk load\<close>
















subsection \<open>Bad keys\<close>












section \<open>Properties of the ProQuest section\<close>

subsection \<open>The repetitions and the search\<close>










subsection \<open>The bracket pattern on a title line\<close>










subsection \<open>The section of a chunk\<close>






section \<open>The worker on concrete files\<close>

theorem nyt_block_without_key_witness:
  "filter is_key_line (split_lines (strip (''Headline: Storm'' @ [NL] @ ''Date: 20110203''))) = []
   \<and> fst (parse_nyt_article canonical_uuid default_nyt_config
            (''Headline: Storm'' @ [NL] @ ''Date: 20110203'') ''sorted_1.txt'') = None
   \<and> fst (snd (parse_nyt_article canonical_uuid default_nyt_config
            (''Headline: Storm'' @ [NL] @ ''Date: 20110203'') ''sorted_1.txt'')) = None
   \<and> nyt_block_step (nyt_parser_of canonical_uuid default_nyt_config) [''headline'']
        ''sorted_1.txt'' (''Headline: Storm'' @ [NL] @ ''Date: 20110203'') ([], []) = ([], [])"
proof -
  let ?b = "''Headline: Storm'' @ [NL] @ ''Date: 20110203''"
  have h: "filter is_key_line (split_lines (strip ?b)) = []" by code_simp
  note t = nyt_block_without_key [of canonical_uuid default_nyt_config ?b "''sorted_1.txt''"
             "[''headline'']" "([], [])"]
  have c1: "fst (parse_nyt_article canonical_uuid default_nyt_config ?b ''sorted_1.txt'') = None"
    using t h by blast
  have c2: "fst (snd (parse_nyt_article canonical_uuid default_nyt_config ?b ''sorted_1.txt'')) = None"
    using t c1 by blast
  have c3: "nyt_block_step (nyt_parser_of canonical_uuid default_nyt_config) [''headline'']
              ''sorted_1.txt'' ?b ([], []) = ([], [])"
    using t h by blast
  show ?thesis by (intro conjI) (fact h c1 c2 c3)+
qed

lemma ascii_file_reads: "read_file_content (ascii_file raw) = Some raw"
  by (simp add: read_file_content_def encodings_to_try_def detected_part_def detect_encoding_def
                ascii_file_def ENCODING_FALLBACKS_def add_fallback_def open_strict_def
                py_lower_def py_lower_char_def)

theorem read_file_content_order_witness:
  "encodings_to_try (detect_encoding (cp1252_file ''cafe'')) =
     [''utf-8'', ''Windows-1252'', ''iso-8859-1'']
   \<and> open_strict (cp1252_file ''cafe'') ''utf-8'' = UnicodeDecodeError
   \<and> open_strict (cp1252_file ''cafe'') ''Windows-1252'' = Content ''cafe''
   \<and> read_file_content (cp1252_file ''cafe'') = Some ''cafe''
   \<and> file_bytes (cp1252_file ''cafe'') \<noteq> None"
proof -
  let ?env = "cp1252_file ''cafe''"
  have de: "detect_encoding ?env = Some ''Windows-1252''"
    by (simp add: detect_encoding_def cp1252_file_def)
  have dp: "detected_part (Some ''Windows-1252'') = [''Windows-1252'']"
    by code_simp
  have lw1: "py_lower ''Windows-1252'' = ''windows-1252''" by code_simp
  have lw2: "py_lower ''windows-1252'' = ''windows-1252''" by code_simp
  have lw3: "py_lower ''iso-8859-1'' = ''iso-8859-1''" by code_simp
  have lw4: "py_lower ''utf-8'' = ''utf-8''" by code_simp
  note lw = lw1 lw2 lw3 lw4
  note t = read_file_content_order [of ?env "''Windows-1252''"]
  have e: "encodings_to_try (detect_encoding ?env) = [''utf-8'', ''Windows-1252'', ''iso-8859-1'']"
  proof -
    have "encodings_to_try (detect_encoding ?env) =
            [''utf-8''] @ detected_part (detect_encoding ?env) @
            filter (\<lambda>f. py_lower f \<notin> set (map py_lower (detected_part (detect_encoding ?env))))
              [''windows-1252'', ''iso-8859-1'']"
      using t by (rule conjunct1)
    then show ?thesis unfolding de dp by (simp add: lw)
  qed
  have o1: "open_strict ?env ''utf-8'' = UnicodeDecodeError"
    by (simp add: open_strict_def cp1252_file_def lw)
  have o2: "open_strict ?env ''Windows-1252'' = Content ''cafe''"
    by (simp add: open_strict_def cp1252_file_def lw)
  have c4: "\<forall>before enc rest c.
         encodings_to_try (detect_encoding ?env) = before @ enc # rest \<and>
         open_strict ?env enc = Content c \<and>
         (\<forall>b \<in> set before. \<forall>c'. open_strict ?env b \<noteq> Content c') \<longrightarrow>
         read_file_content ?env = Some c"
    using t by (elim conjE)
  have "encodings_to_try (detect_encoding ?env) = [''utf-8''] @ ''Windows-1252'' # [''iso-8859-1'']
         \<and> open_strict ?env ''Windows-1252'' = Content ''cafe''
         \<and> (\<forall>b \<in> set [''utf-8'']. \<forall>c'. open_strict ?env b \<noteq> Content c')"
    using e o1 o2 by simp
  then have r: "read_file_content ?env = Some ''cafe''" using c4 by blast
  have c6: "read_file_content ?env = None \<longleftrightarrow> file_bytes ?env = None"
    using t by (elim conjE)
  have fb: "file_bytes ?env \<noteq> None" using c6 r by simp
  show ?thesis by (intro conjI) (fact e o1 o2 r fb)+
qed

theorem proquest_article_chunks_witness:
  "3 < length [''head'', ''1 of 2'', ''Title: A [X]'', ''Title: B'', ''foot'']
   \<and> article_chunks_of [''head'', ''1 of 2'', ''Title: A [X]'', ''Title: B'', ''foot'']
       = [''Title: A [X]'', ''Title: B'']
   \<and> length [''x'', ''  ''] \<le> 3
   \<and> article_chunks_of [''x'', ''  ''] = [''x'']
   \<and> read_file_content (fs (proquest_task two_article_export)) = Some two_article_export
   \<and> file_type (proquest_task two_article_export) = ''proquest''
   \<and> py_split two_article_export PROQUEST_SEPARATOR
       = Inr [''head'', ''1 of 2'', ''Title: A [X]'', ''Title: B'', ''foot'']
   \<and> process_file_worker repo_ctx sample_worker_config (proquest_task two_article_export) =
       finish_worker repo_ctx (proquest_task two_article_export)
         (proquest_cols sample_worker_config)
         (fold (pq_chunk_step (pq_parser_func repo_ctx) (proquest_cols sample_worker_config)
                  (file_path (proquest_task two_article_export)))
            [''Title: A [X]'', ''Title: B''] []) []"
proof -
  let ?cs = "[''head'', ''1 of 2'', ''Title: A [X]'', ''Title: B'', ''foot'']"
  let ?t = "proquest_task two_article_export"
  have h1: "3 < length ?cs" by simp
  have h2: "length [''x'', ''  ''] \<le> 3" by simp
  have f: "filter (\<lambda>c. strip c \<noteq> []) [''x'', ''  ''] = [''x'']" by code_simp
  have r: "read_file_content (fs ?t) = Some two_article_export"
    by (simp add: proquest_task_def ascii_file_reads)
  have ft: "file_type ?t = ''proquest''" by (simp add: proquest_task_def)
  have sp: "py_split two_article_export
              (case proquest_separator sample_worker_config of
                 None \<Rightarrow> PROQUEST_SEPARATOR | Some s \<Rightarrow> s) = Inr ?cs"
    by code_simp
  have sp': "py_split two_article_export PROQUEST_SEPARATOR = Inr ?cs"
    using sp by (simp add: sample_worker_config_def)
  note t5 = proquest_article_chunks [of ?cs ?t two_article_export sample_worker_config repo_ctx]
  note t2 = proquest_article_chunks [of "[''x'', ''  '']" ?t two_article_export
              sample_worker_config repo_ctx]
  have a5: "?cs = take 2 ?cs @ article_chunks_of ?cs @ [last ?cs]" using t5 h1 by blast
  have c1: "article_chunks_of ?cs = [''Title: A [X]'', ''Title: B'']"
  proof -
    have "take 2 ?cs @ article_chunks_of ?cs @ [last ?cs] =
            take 2 ?cs @ [''Title: A [X]'', ''Title: B''] @ [last ?cs]"
      using a5 by simp
    then show ?thesis by (simp only: same_append_eq append_same_eq)
  qed
  have c2: "article_chunks_of [''x'', ''  ''] = [''x'']" using t2 h2 f by simp
  have w: "process_file_worker repo_ctx sample_worker_config ?t =
             (if article_chunks_of ?cs = [] then None
              else finish_worker repo_ctx ?t (proquest_cols sample_worker_config)
                     (fold (pq_chunk_step (pq_parser_func repo_ctx)
                              (proquest_cols sample_worker_config) (file_path ?t))
                        (article_chunks_of ?cs) []) [])"
    using t5 r ft sp by blast
  have c3: "process_file_worker repo_ctx sample_worker_config ?t =
              finish_worker repo_ctx ?t (proquest_cols sample_worker_config)
                (fold (pq_chunk_step (pq_parser_func repo_ctx)
                         (proquest_cols sample_worker_config) (file_path ?t))
                   [''Title: A [X]'', ''Title: B''] []) []"
    using w unfolding c1 by simp
  show ?thesis by (intro conjI) (fact h1 c1 h2 c2 r ft sp' c3)+
qed

theorem worker_without_records_witness:
  "read_file_content (fs (nyt_task keyless_nyt_file)) = Some keyless_nyt_file
   \<and> process_file_worker repo_ctx sample_worker_config (nyt_task keyless_nyt_file) = None
   \<and> load_articles_parallel repo_ctx sample_worker_config proquest_failing_env
        ([] @ nyt_task keyless_nyt_file # []) sample_db
      = load_articles_parallel repo_ctx sample_worker_config proquest_failing_env
          (([] :: string task list) @ []) sample_db
   \<and> read_file_content (fs (proquest_task blank_proquest_file)) = Some blank_proquest_file
   \<and> process_file_worker repo_ctx sample_worker_config (proquest_task blank_proquest_file) = None"
proof -
  let ?n = "nyt_task keyless_nyt_file"
  let ?p = "proquest_task blank_proquest_file"
  have rn: "read_file_content (fs ?n) = Some keyless_nyt_file"
    by (simp add: nyt_task_def ascii_file_reads)
  have rp: "read_file_content (fs ?p) = Some blank_proquest_file"
    by (simp add: proquest_task_def ascii_file_reads)
  have sn: "py_split keyless_nyt_file (article_separator (nyt_cfg sample_worker_config))
              = Inr [''Headline: Storm'' @ [NL], [NL] @ ''Headline: Flood'']"
    by code_simp
  have y1: "\<not> nyt_block_yields (nyt_parser_func repo_ctx) (file_path ?n) (''Headline: Storm'' @ [NL])"
    by code_simp
  have y2: "\<not> nyt_block_yields (nyt_parser_func repo_ctx) (file_path ?n) ([NL] @ ''Headline: Flood'')"
    by code_simp
  have n2: "file_type ?n = ''proquest'' \<longrightarrow>
           (\<forall>chunks. py_split keyless_nyt_file
               (case proquest_separator sample_worker_config of None \<Rightarrow> PROQUEST_SEPARATOR | Some s \<Rightarrow> s) = Inr chunks
             \<longrightarrow> (\<forall>c \<in> set (article_chunks_of chunks). \<not> pq_chunk_yields (pq_parser_func repo_ctx) c))"
    by (simp add: nyt_task_def)
  have n3: "file_type ?n = ''nyt'' \<longrightarrow>
           (\<forall>blocks. py_split keyless_nyt_file (article_separator (nyt_cfg sample_worker_config)) = Inr blocks
             \<longrightarrow> (\<forall>b \<in> set blocks. \<not> nyt_block_yields (nyt_parser_func repo_ctx) (file_path ?n) b))"
    unfolding sn using y1 y2 by auto
  note tn = worker_without_records [OF rn n2 n3, of "[]" "[]" proquest_failing_env sample_db]
  have sp: "py_split blank_proquest_file
              (case proquest_separator sample_worker_config of None \<Rightarrow> PROQUEST_SEPARATOR | Some s \<Rightarrow> s)
              = Inr [''  '', '' '']"
    by code_simp
  have ac: "article_chunks_of [''  '', '' ''] = []" by code_simp
  have p2: "file_type ?p = ''proquest'' \<longrightarrow>
           (\<forall>chunks. py_split blank_proquest_file
               (case proquest_separator sample_worker_config of None \<Rightarrow> PROQUEST_SEPARATOR | Some s \<Rightarrow> s) = Inr chunks
             \<longrightarrow> (\<forall>c \<in> set (article_chunks_of chunks). \<not> pq_chunk_yields (pq_parser_func repo_ctx) c))"
    unfolding sp using ac by auto
  have p3: "file_type ?p = ''nyt'' \<longrightarrow>
           (\<forall>blocks. py_split blank_proquest_file (article_separator (nyt_cfg sample_worker_config)) = Inr blocks
             \<longrightarrow> (\<forall>b \<in> set blocks. \<not> nyt_block_yields (nyt_parser_func repo_ctx) (file_path ?p) b))"
    by (simp add: proquest_task_def)
  note tp = worker_without_records [OF rp p2 p3, of "[]" "[]" proquest_failing_env sample_db]
  have cn1: "process_file_worker repo_ctx sample_worker_config ?n = None"
    using tn by (rule conjunct1)
  have cn3: "load_articles_parallel repo_ctx sample_worker_config proquest_failing_env
               ([] @ ?n # []) sample_db
             = load_articles_parallel repo_ctx sample_worker_config proquest_failing_env
               (([] :: string task list) @ []) sample_db"
    using tn by (elim conjE) assumption
  have cp1: "process_file_worker repo_ctx sample_worker_config ?p = None"
    using tp by (rule conjunct1)
  show ?thesis by (intro conjI) (fact rn cn1 cn3 rp cp1)+
qed

end
